theory Spec2Isabelle
  imports Complex_Main
begin

section \<open>Data model\<close>

text \<open>
  The module \<^verbatim>\<open>isoForestImport.py\<close> scores one integer series under several feature
  views with an isolation forest and merges the per-view result frames into one table.
  The embedding keeps the shape of the source: one definition per source function, the
  pandas operations the source calls as small helper definitions, and every exception the
  source can raise as an \<open>Inl\<close> value.
\<close>

datatype error =
    AssertionError string
  | KeyError string
  | ValueError string
  | IndexError string

definition bindE :: "error + 'a \<Rightarrow> ('a \<Rightarrow> error + 'b) \<Rightarrow> error + 'b" where
  "bindE m f = (case m of Inl e \<Rightarrow> Inl e | Inr v \<Rightarrow> f v)"

text \<open>
  A cell of a result frame. Scores, differences and rolling means are floating-point
  numbers in pandas; the embedding computes them as exact rationals. Time stamps are
  nanoseconds since the epoch, calendar dates are days since the epoch. A missing cell
  (pandas' NaN) is \<open>None\<close>.
\<close>

datatype cell = Float rat | Integer int | Datetime int | Day int

text \<open>Row labels: the positions of a \<^verbatim>\<open>RangeIndex\<close>, or the stamps of a \<^verbatim>\<open>DatetimeIndex\<close>.\<close>

datatype label = RangeLabel nat | TimeLabel int

record frame =
  index :: "label list"
  columns :: "(string \<times> cell option list) list"

text \<open>
  The arguments of \<^verbatim>\<open>getIF\<close> are Python objects whose class the function asserts. A
  series is read through its values and positional slices only, so it is modelled by its
  list of values.
\<close>

datatype pyobj =
    Series "int list"
  | DatetimeIndex "int list"
  | PyList "int list"
  | NdArray "int list"

fun payload :: "pyobj \<Rightarrow> int list" where
  "payload (Series xs) = xs"
| "payload (DatetimeIndex xs) = xs"
| "payload (PyList xs) = xs"
| "payload (NdArray xs) = xs"

fun is_Series :: "pyobj \<Rightarrow> bool" where
  "is_Series (Series _) = True"
| "is_Series _ = False"

fun is_DatetimeIndex :: "pyobj \<Rightarrow> bool" where
  "is_DatetimeIndex (DatetimeIndex _) = True"
| "is_DatetimeIndex _ = False"

fun is_list :: "pyobj \<Rightarrow> bool" where
  "is_list (PyList _) = True"
| "is_list _ = False"

section \<open>The external scorer\<close>

text \<open>
  \<^verbatim>\<open>sklearn.ensemble.IsolationForest\<close> is not part of the repository and is a
  parameter of the embedding. Fitting takes the feature matrix (a list of rows) and
  either an integer \<^verbatim>\<open>random_state\<close> or, when that is \<open>None\<close>, the state \<open>'g\<close> of the
  process-wide generator; it may reject the matrix. A fitted model \<open>'m\<close> scores and
  labels every row of a matrix on its own.
\<close>

record ('g, 'm) sklearn =
  fit_seeded :: "nat \<Rightarrow> rat list list \<Rightarrow> error + 'm"
  fit_global :: "'g \<Rightarrow> rat list list \<Rightarrow> error + 'm"
  score_sample :: "'m \<Rightarrow> rat list \<Rightarrow> rat"
  predict_sample :: "'m \<Rightarrow> rat list \<Rightarrow> int"

definition fit :: "('g, 'm) sklearn \<Rightarrow> 'g \<Rightarrow> nat option \<Rightarrow> rat list list \<Rightarrow> error + 'm" where
  "fit sk g random_state X =
     (case random_state of Some seed \<Rightarrow> fit_seeded sk seed X | None \<Rightarrow> fit_global sk g X)"

definition decision_function :: "('g, 'm) sklearn \<Rightarrow> 'm \<Rightarrow> rat list list \<Rightarrow> cell option list" where
  "decision_function sk clf X = map (\<lambda>row. Some (Float (score_sample sk clf row))) X"

definition predict :: "('g, 'm) sklearn \<Rightarrow> 'm \<Rightarrow> rat list list \<Rightarrow> cell option list" where
  "predict sk clf X = map (\<lambda>row. Some (Integer (predict_sample sk clf row))) X"

section \<open>The pandas operations the source uses\<close>

definition DataFrame :: frame where
  "DataFrame = \<lparr>index = [], columns = []\<rparr>"

definition put :: "string \<Rightarrow> cell option list \<Rightarrow> (string \<times> cell option list) list
    \<Rightarrow> (string \<times> cell option list) list" where
  "put name vals cols =
     (if name \<in> fst ` set cols
      then map (\<lambda>(c, d). if c = name then (c, vals) else (c, d)) cols
      else cols @ [(name, vals)])"

text \<open>
  \<^verbatim>\<open>df[name] = array\<close>: a frame with no rows takes the length of the array and a fresh
  \<^verbatim>\<open>RangeIndex\<close>; otherwise the lengths must agree.
\<close>

definition setitem :: "string \<Rightarrow> cell option list \<Rightarrow> frame \<Rightarrow> error + frame" where
  "setitem name vals df =
     (let df' = (if index df = []
                 then \<lparr>index = map RangeLabel [0..<length vals],
                       columns = map (\<lambda>(c, d). (c, replicate (length vals) None)) (columns df)\<rparr>
                 else df)
      in if length vals \<noteq> length (index df')
         then Inl (ValueError ''Length of values does not match length of index'')
         else Inr (df'\<lparr>columns := put name vals (columns df')\<rparr>))"

definition getitem :: "string \<Rightarrow> frame \<Rightarrow> error + cell option list" where
  "getitem name df =
     (case map_of (columns df) name of None \<Rightarrow> Inl (KeyError name) | Some d \<Rightarrow> Inr d)"

text \<open>\<^verbatim>\<open>df.drop(name, 1)\<close>: every column of that name goes; a missing name is a KeyError.\<close>

definition drop_column :: "string \<Rightarrow> frame \<Rightarrow> error + frame" where
  "drop_column name df =
     (if name \<in> fst ` set (columns df)
      then Inr (df\<lparr>columns := filter (\<lambda>(c, d). c \<noteq> name) (columns df)\<rparr>)
      else Inl (KeyError name))"

text \<open>\<^verbatim>\<open>df.columns = names\<close>.\<close>

definition set_columns :: "string list \<Rightarrow> frame \<Rightarrow> error + frame" where
  "set_columns names df =
     (if length names \<noteq> length (columns df)
      then Inl (ValueError ''Length mismatch'')
      else Inr (df\<lparr>columns := zip names (map snd (columns df))\<rparr>))"

text \<open>\<^verbatim>\<open>df.columns.values[i] = name\<close>: the name at position \<open>i\<close> is overwritten in place.\<close>

definition rename_at :: "nat \<Rightarrow> string \<Rightarrow> frame \<Rightarrow> error + frame" where
  "rename_at i name df =
     (if i < length (columns df)
      then Inr (df\<lparr>columns := (columns df)[i := (name, snd (columns df ! i))]\<rparr>)
      else Inl (IndexError ''index out of bounds''))"

text \<open>
  \<^verbatim>\<open>pd.concat(frames, axis = 1)\<close>: the row index of the result is the union of the
  frames' indexes, in order of first appearance, and every column is re-indexed to it;
  a label the column's frame lacks gives a missing cell.
\<close>

definition union_index :: "label list \<Rightarrow> label list \<Rightarrow> label list" where
  "union_index a b = a @ filter (\<lambda>l. l \<notin> set a) b"

definition reindex :: "label list \<Rightarrow> label list \<Rightarrow> cell option list \<Rightarrow> cell option list" where
  "reindex new old d =
     map (\<lambda>l. case map_of (zip old d) l of None \<Rightarrow> None | Some v \<Rightarrow> v) new"

definition concat_axis1 :: "frame list \<Rightarrow> frame" where
  "concat_axis1 dfs =
     (let idx = foldl union_index [] (map index dfs)
      in \<lparr>index = idx,
          columns = concat (map (\<lambda>df. map (\<lambda>(c, d). (c, reindex idx (index df) d)) (columns df)) dfs)\<rparr>)"

text \<open>\<^verbatim>\<open>Series.isna().sum()\<close>, \<^verbatim>\<open>Series.dropna()\<close> and \<^verbatim>\<open>Series.shift(k)\<close>.\<close>

definition isna_sum :: "'a option list \<Rightarrow> nat" where
  "isna_sum d = length (filter (\<lambda>c. c = None) d)"

definition dropna :: "'a option list \<Rightarrow> 'a list" where
  "dropna d = List.map_filter (\<lambda>c. c) d"

definition dropna_series :: "label list \<Rightarrow> cell option list \<Rightarrow> (label \<times> cell) list" where
  "dropna_series idx d = List.map_filter (\<lambda>(l, c). map_option (\<lambda>v. (l, v)) c) (zip idx d)"

definition shift :: "nat \<Rightarrow> cell option list \<Rightarrow> cell option list" where
  "shift k d = take (length d) (replicate k None @ d)"

text \<open>\<^verbatim>\<open>Series.diff()\<close>: the first entry is missing, entry \<open>i\<close> is \<open>x[i] - x[i-1]\<close>.\<close>

definition diff :: "int list \<Rightarrow> rat option list" where
  "diff xs =
     (case xs of [] \<Rightarrow> []
      | x # rest \<Rightarrow> None # map (\<lambda>(a, b). Some (rat_of_int (b - a))) (zip xs rest))"

text \<open>
  \<^verbatim>\<open>Series.rolling(w).mean()\<close>: entry \<open>i\<close> is the mean of the \<open>w\<close> values ending at \<open>i\<close>,
  and is missing while fewer than \<open>w\<close> values are there (or when \<open>w\<close> is 0). A negative
  window is refused.
\<close>

definition rolling_mean :: "nat \<Rightarrow> int list \<Rightarrow> rat option list" where
  "rolling_mean w xs =
     map (\<lambda>i. if w = 0 \<or> i + 1 < w then None
              else Some (rat_of_int (sum_list (take w (drop (i + 1 - w) xs))) / rat_of_nat w))
       [0..<length xs]"

definition rolling :: "int \<Rightarrow> int list \<Rightarrow> error + rat option list" where
  "rolling val xs =
     (if val < 0 then Inl (ValueError ''window must be an integer 0 or greater'')
      else Inr (rolling_mean (nat val) xs))"

text \<open>
  \<^verbatim>\<open>pd.concat([a, b], axis = 1)\<close> of two series over the same index: the frame of
  features whose rows pair their entries, \<open>a\<close> as the first column. Its
  \<^verbatim>\<open>dropna()\<close> removes the rows with a missing entry.
\<close>

definition concat_series :: "rat option list \<Rightarrow> rat option list \<Rightarrow> rat option list list" where
  "concat_series a b = map (\<lambda>(x, y). [x, y]) (zip a b)"

definition dropna_rows :: "rat option list list \<Rightarrow> rat list list" where
  "dropna_rows rows = List.map_filter those rows"

text \<open>\<^verbatim>\<open>Series.dt.date\<close>: a time stamp is cut to its calendar day.\<close>

definition ns_per_day :: int where
  "ns_per_day = 86400000000000"

fun to_date :: "cell \<Rightarrow> cell" where
  "to_date (Datetime t) = Day (t div ns_per_day)"
| "to_date c = c"

definition dt_date :: "cell option list \<Rightarrow> cell option list" where
  "dt_date d = map (map_option to_date) d"

text \<open>\<^verbatim>\<open>str(val)\<close> for an integer: its decimal digits, with a sign when negative.\<close>

fun digits :: "nat \<Rightarrow> string" where
  "digits n =
     (if n < 10 then [''0123456789'' ! n]
      else digits (n div 10) @ [''0123456789'' ! (n mod 10)])"

declare digits.simps [simp del]

definition str :: "int \<Rightarrow> string" where
  "str i = (if i < 0 then CHR ''-'' # digits (nat (- i)) else digits (nat i))"

text \<open>
  \<^verbatim>\<open>df.loc[mask, names]\<close>: the rows the mask selects, the named columns in the order
  asked for; a name that is no column is a KeyError.
\<close>

definition loc :: "bool list \<Rightarrow> string list \<Rightarrow> frame \<Rightarrow> error + frame" where
  "loc sel names df =
     (case filter (\<lambda>c. c \<notin> fst ` set (columns df)) names of
        c # _ \<Rightarrow> Inl (KeyError c)
      | [] \<Rightarrow> Inr \<lparr>index = map snd (filter fst (zip sel (index df))),
                  columns = map (\<lambda>c. (c, map snd (filter fst (zip sel (the (map_of (columns df) c)))))) names\<rparr>)"

text \<open>
  \<^verbatim>\<open>frame[name] = series\<close> aligns the series on the frame's index, and writes every
  column that carries the name; \<^verbatim>\<open>frame[name] = frame[name].shift(k)\<close> moves every such
  column down by \<open>k\<close> rows.
\<close>

definition setitem_series :: "string \<Rightarrow> (label \<times> cell) list \<Rightarrow> frame \<Rightarrow> frame" where
  "setitem_series name s df =
     df\<lparr>columns := put name (reindex (index df) (map fst s) (map (\<lambda>(l, v). Some v) s)) (columns df)\<rparr>"

definition shift_item :: "string \<Rightarrow> nat \<Rightarrow> frame \<Rightarrow> frame" where
  "shift_item name k df =
     df\<lparr>columns := map (\<lambda>(c, d). if c = name then (c, shift k d) else (c, d)) (columns df)\<rparr>"

section \<open>The source functions\<close>

text \<open>Every view creates its scorer as \<^verbatim>\<open>IsolationForest(random_state=42)\<close>.\<close>

definition random_state :: "nat option" where
  "random_state = Some 42"

record plot =
  title :: string
  xlabel :: "string option"
  ylabel :: "string option"
  line :: "(int \<times> int) list"
  scatter :: "(cell option \<times> cell option) list"

text \<open>
  \<^verbatim>\<open>getPlot\<close> selects the rows flagged \<open>-1\<close> with their \<^verbatim>\<open>Date\<close> and \<^verbatim>\<open>Incidents\<close>
  and draws them over the line of the series; the figure is the value returned here.
\<close>

definition getPlot :: "int list \<Rightarrow> int list \<Rightarrow> frame \<Rightarrow> string \<Rightarrow> string option \<Rightarrow> string option
    \<Rightarrow> error + plot" where
  "getPlot dataCol timeCol dfResults ttl xx yy =
     bindE (getitem ''Anomaly'' dfResults) (\<lambda>anomaly.
     bindE (loc (map (\<lambda>c. c = Some (Integer (- 1))) anomaly) [''Date'', ''Incidents''] dfResults) (\<lambda>a.
     if length timeCol \<noteq> length dataCol
     then Inl (ValueError ''x and y must have same first dimension'')
     else
     bindE (getitem ''Date'' a) (\<lambda>d.
     bindE (getitem ''Incidents'' a) (\<lambda>i.
     Inr \<lparr>title = ttl, xlabel = xx, ylabel = yy, line = zip timeCol dataCol, scatter = zip d i\<rparr>))))"

definition getBase :: "('g, 'm) sklearn \<Rightarrow> 'g \<Rightarrow> int list \<Rightarrow> int list \<Rightarrow> string option \<Rightarrow> string option
    \<Rightarrow> bool option \<Rightarrow> error + frame" where
  "getBase sk g dataCol timeCol xx yy time =
     (let X = map (\<lambda>v. [rat_of_int v]) dataCol in
      bindE (fit sk g random_state X) (\<lambda>clf.
      bindE (setitem ''baseScores'' (decision_function sk clf X) DataFrame) (\<lambda>dfResults.
      bindE (setitem ''Anomaly'' (predict sk clf X) dfResults) (\<lambda>dfResults.
      bindE (setitem ''Incidents'' (map (\<lambda>v. Some (Integer v)) dataCol) dfResults) (\<lambda>dfResults.
      bindE (if time = None
             then bindE (setitem ''Date'' (map (\<lambda>t. Some (Datetime t)) timeCol) dfResults) (\<lambda>dfResults.
                  bindE (getitem ''Date'' dfResults) (\<lambda>d.
                  setitem ''Date'' (dt_date d) dfResults))
             else if time = Some True
             then setitem ''Date'' (map (\<lambda>t. Some (Datetime t)) timeCol) dfResults
             else Inr dfResults) (\<lambda>dfResults.
      bindE (getPlot dataCol timeCol dfResults ''Raw Input'' xx yy) (\<lambda>_.
      Inr dfResults)))))))"

definition getBaseDelta :: "('g, 'm) sklearn \<Rightarrow> 'g \<Rightarrow> int list \<Rightarrow> int list \<Rightarrow> string option
    \<Rightarrow> string option \<Rightarrow> error + frame" where
  "getBaseDelta sk g dataCol timeCol xx yy =
     (let deltaCol = diff dataCol;
          deltaPD = concat_series deltaCol (map (\<lambda>v. Some (rat_of_int v)) dataCol);
          X = dropna_rows deltaPD in
      bindE (fit sk g random_state X) (\<lambda>clf.
      bindE (setitem ''deltaScores'' (decision_function sk clf X) DataFrame) (\<lambda>dfResults.
      bindE (setitem ''Anomaly'' (predict sk clf X) dfResults) (\<lambda>dfResults.
      bindE (setitem ''Incidents'' (map (\<lambda>v. Some (Integer v)) (drop 1 dataCol)) dfResults) (\<lambda>dfResults.
      bindE (setitem ''deltaIncidents'' (map (map_option Float) (drop 1 deltaCol)) dfResults) (\<lambda>dfResults.
      bindE (setitem ''Date'' (map (\<lambda>t. Some (Datetime t)) (drop 1 timeCol)) dfResults) (\<lambda>dfResults.
      bindE (getPlot dataCol timeCol dfResults ''Raw Input and Delta'' xx yy) (\<lambda>_.
      bindE (drop_column ''Date'' dfResults) (\<lambda>dfResults.
      bindE (drop_column ''Incidents'' dfResults) (\<lambda>dfResults.
      rename_at 1 ''deltaAnomaly'' dfResults))))))))))"

text \<open>One pass of the loop of \<^verbatim>\<open>getWindows\<close> (lines 181 to 201), for the window \<open>val\<close>.\<close>

definition getWindows_body :: "('g, 'm) sklearn \<Rightarrow> 'g \<Rightarrow> int list \<Rightarrow> int list \<Rightarrow> string option
    \<Rightarrow> string option \<Rightarrow> int \<Rightarrow> error + (rat list \<times> frame)" where
  "getWindows_body sk g dataCol timeCol xx yy val =
     bindE (rolling val dataCol) (\<lambda>rollingCol.
     let dropped = isna_sum rollingCol;
         rollingCol = dropna rollingCol;
         X = map (\<lambda>v. [v]) rollingCol in
     bindE (fit sk g random_state X) (\<lambda>clf.
     bindE (setitem ''scores'' (decision_function sk clf X) DataFrame) (\<lambda>dfResults.
     bindE (setitem ''Anomaly'' (predict sk clf X) dfResults) (\<lambda>dfResults.
     bindE (setitem ''windowIncidents'' (map (\<lambda>v. Some (Float v)) rollingCol) dfResults) (\<lambda>dfResults.
     bindE (setitem ''Incidents'' (map (\<lambda>v. Some (Integer v)) (drop dropped dataCol)) dfResults) (\<lambda>dfResults.
     bindE (setitem ''Date'' (map (\<lambda>t. Some (Datetime t)) (drop dropped timeCol)) dfResults) (\<lambda>dfResults.
     bindE (getPlot dataCol timeCol dfResults (''Window of '' @ str val) xx yy) (\<lambda>_.
     bindE (drop_column ''Date'' dfResults) (\<lambda>dfResults.
     bindE (drop_column ''Incidents'' dfResults) (\<lambda>dfResults.
     bindE (set_columns [''window'' @ str val @ ''Scores'', ''window'' @ str val @ ''Anomaly'',
                         ''window'' @ str val @ ''Incidents''] dfResults) (\<lambda>dfResults.
     Inr (rollingCol, dfResults))))))))))))"

text \<open>
  The loop itself. \<^verbatim>\<open>rollingDF\<close> collects the rolling columns side by side; only the
  number of its columns is read later, so it is kept as the list of those columns.
\<close>

fun getWindows_loop :: "('g, 'm) sklearn \<Rightarrow> 'g \<Rightarrow> int list \<Rightarrow> int list \<Rightarrow> string option
    \<Rightarrow> string option \<Rightarrow> int list \<Rightarrow> rat list list \<times> frame \<Rightarrow> error + (rat list list \<times> frame)" where
  "getWindows_loop sk g dataCol timeCol xx yy [] acc = Inr acc"
| "getWindows_loop sk g dataCol timeCol xx yy (val # rest) (rollingDF, windowResults) =
     (case getWindows_body sk g dataCol timeCol xx yy val of
        Inl e \<Rightarrow> Inl e
      | Inr (rollingCol, dfResults) \<Rightarrow>
          getWindows_loop sk g dataCol timeCol xx yy rest
            (rollingDF @ [rollingCol], concat_axis1 [windowResults, dfResults]))"

definition getWindows :: "('g, 'm) sklearn \<Rightarrow> 'g \<Rightarrow> int list \<Rightarrow> int list \<Rightarrow> int list \<Rightarrow> string option
    \<Rightarrow> string option \<Rightarrow> error + (rat list list \<times> frame)" where
  "getWindows sk g dataCol timeCol windowList xx yy =
     getWindows_loop sk g dataCol timeCol xx yy windowList ([], DataFrame)"

text \<open>One pass of the loop of \<^verbatim>\<open>getWindowsDelta\<close> (lines 238 to 259).\<close>

definition getWindowsDelta_body :: "('g, 'm) sklearn \<Rightarrow> 'g \<Rightarrow> int list \<Rightarrow> int list \<Rightarrow> string option
    \<Rightarrow> string option \<Rightarrow> int \<Rightarrow> error + frame" where
  "getWindowsDelta_body sk g dataCol timeCol xx yy val =
     (let deltaCol = diff dataCol;
          deltaPD = concat_series deltaCol (map (\<lambda>v. Some (rat_of_int v)) dataCol);
          dropped = isna_sum (map hd deltaPD);
          X = dropna_rows deltaPD in
      bindE (fit sk g random_state X) (\<lambda>clf.
      bindE (setitem ''scores'' (decision_function sk clf X) DataFrame) (\<lambda>dfResults.
      bindE (setitem ''Anomaly'' (predict sk clf X) dfResults) (\<lambda>dfResults.
      bindE (setitem ''Incidents'' (map (\<lambda>v. Some (Integer v)) (drop dropped dataCol)) dfResults) (\<lambda>dfResults.
      bindE (setitem ''deltaIncidents'' (map (map_option Float) (drop dropped deltaCol)) dfResults) (\<lambda>dfResults.
      bindE (setitem ''Date'' (map (\<lambda>t. Some (Datetime t)) (drop dropped timeCol)) dfResults) (\<lambda>dfResults.
      bindE (getPlot dataCol timeCol dfResults (''Window of '' @ str val @ '' and Delta'') xx yy) (\<lambda>_.
      bindE (drop_column ''Date'' dfResults) (\<lambda>dfResults.
      bindE (drop_column ''Incidents'' dfResults) (\<lambda>dfResults.
      set_columns [''windowDelta'' @ str val @ ''Scores'', ''windowDelta'' @ str val @ ''Anomaly'',
                   ''windowDelta'' @ str val @ ''Incidents''] dfResults))))))))))"

text \<open>
  The loop runs over \<^verbatim>\<open>zip(windowList, rollingDF.iteritems())\<close>; the rolling column of
  each pair is not read.
\<close>

fun getWindowsDelta_loop :: "('g, 'm) sklearn \<Rightarrow> 'g \<Rightarrow> int list \<Rightarrow> int list \<Rightarrow> string option
    \<Rightarrow> string option \<Rightarrow> (int \<times> rat list) list \<Rightarrow> frame \<Rightarrow> error + frame" where
  "getWindowsDelta_loop sk g dataCol timeCol xx yy [] windowDeltaResults = Inr windowDeltaResults"
| "getWindowsDelta_loop sk g dataCol timeCol xx yy ((val, columnData) # rest) windowDeltaResults =
     (case getWindowsDelta_body sk g dataCol timeCol xx yy val of
        Inl e \<Rightarrow> Inl e
      | Inr dfResults \<Rightarrow>
          getWindowsDelta_loop sk g dataCol timeCol xx yy rest
            (concat_axis1 [windowDeltaResults, dfResults]))"

definition getWindowsDelta :: "('g, 'm) sklearn \<Rightarrow> 'g \<Rightarrow> int list \<Rightarrow> int list \<Rightarrow> int list
    \<Rightarrow> rat list list \<Rightarrow> string option \<Rightarrow> string option \<Rightarrow> error + frame" where
  "getWindowsDelta sk g dataCol timeCol windowList rollingDF xx yy =
     getWindowsDelta_loop sk g dataCol timeCol xx yy (zip windowList rollingDF) DataFrame"

text \<open>
  The realignment loop of \<^verbatim>\<open>getIF\<close> (lines 308 to 312). In the pandas releases the
  module runs on (those before 2.0, which still have \<^verbatim>\<open>iteritems\<close> and the positional
  axis of \<^verbatim>\<open>drop\<close>), \<^verbatim>\<open>isoResults.iloc[:,:]\<close> is \<^verbatim>\<open>isoResults\<close> itself and
  \<^verbatim>\<open>iteritems\<close> yields the column at position \<open>i\<close> when the loop reaches it: the
  loop reads what earlier passes wrote. One pass counts the missing cells of the column,
  writes the column without them back under its name, and moves what now stands under
  that name down by the count.
\<close>

definition realign_column :: "frame \<Rightarrow> string \<times> cell option list \<Rightarrow> frame" where
  "realign_column isoResults col =
     (case col of (columnName, columnData) \<Rightarrow>
        let dropped = isna_sum columnData;
            test = dropna_series (index isoResults) columnData;
            isoResults = setitem_series columnName test isoResults
        in shift_item columnName dropped isoResults)"

definition realign :: "frame \<Rightarrow> frame" where
  "realign isoResults =
     foldl (\<lambda>df i. realign_column df (columns df ! i)) isoResults [0..<length (columns isoResults)]"

definition getIF :: "('g, 'm) sklearn \<Rightarrow> 'g \<Rightarrow> pyobj \<Rightarrow> pyobj \<Rightarrow> pyobj \<Rightarrow> string option
    \<Rightarrow> string option \<Rightarrow> bool option \<Rightarrow> error + frame" where
  "getIF sk g dataCol timeCol windowList x y time =
     (if \<not> is_Series dataCol then Inl (AssertionError ''dataCol should be a pandas series'')
      else if \<not> is_DatetimeIndex timeCol
      then Inl (AssertionError ''timeCol should be a pandas DatetimeIndex'')
      else if \<not> is_list windowList then Inl (AssertionError ''windowList should be a list'')
      else
      bindE (getBase sk g (payload dataCol) (payload timeCol) x y time) (\<lambda>baseDF.
      bindE (getWindows sk g (payload dataCol) (payload timeCol) (payload windowList) x y)
        (\<lambda>(rollingCol, rollingDF).
      bindE (getBaseDelta sk g (payload dataCol) (payload timeCol) x y) (\<lambda>baseDeltaDF.
      bindE (getWindowsDelta sk g (payload dataCol) (payload timeCol) (payload windowList)
               rollingCol x y) (\<lambda>windowDeltaDF.
      Inr (realign (concat_axis1 [baseDF, baseDeltaDF, rollingDF, windowDeltaDF])))))))"

section \<open>Notions of the specification\<close>

text \<open>
  A frame whose row index is the \<^verbatim>\<open>RangeIndex\<close> \<open>0, ..., m - 1\<close>: every frame the
  source builds from arrays is one.
\<close>

definition range_frame :: "nat \<Rightarrow> (string \<times> cell option list) list \<Rightarrow> frame" where
  "range_frame m cols = \<lparr>index = map RangeLabel [0..<m], columns = cols\<rparr>"

definition nrows :: "frame \<Rightarrow> nat" where
  "nrows df = length (index df)"

definition wf_frame :: "frame \<Rightarrow> bool" where
  "wf_frame df \<longleftrightarrow>
     index df = map RangeLabel [0..<nrows df] \<and> list_all (\<lambda>col. length (snd col) = nrows df) (columns df)"

text \<open>
  The feature matrix of the Delta view as the specification words it: two columns, the
  first difference \<open>value[i] - value[i-1]\<close> and the raw value, on the rows where the
  difference is defined.
\<close>

definition delta_rows :: "int list \<Rightarrow> rat list list" where
  "delta_rows d = map (\<lambda>(a, b). [rat_of_int (b - a), rat_of_int b]) (zip d (tl d))"

text \<open>
  The aligner of the specification: a scored column of \<open>m\<close> rows becomes a column of
  \<open>n\<close> rows whose first \<open>n - m\<close> entries are missing and whose entry \<open>(n - m) + i\<close> is
  row \<open>i\<close> of the scored column. \<open>pad_column\<close> is what the merge does first: the
  missing entries at the end.
\<close>

definition align :: "nat \<Rightarrow> string \<times> cell option list \<Rightarrow> string \<times> cell option list" where
  "align n col = (fst col, replicate (n - length (snd col)) None @ snd col)"

definition pad_column :: "nat \<Rightarrow> string \<times> cell option list \<Rightarrow> string \<times> cell option list" where
  "pad_column n col = (fst col, snd col @ replicate (n - length (snd col)) None)"

text \<open>
  A small scorer for the worked examples: it rejects a matrix with no rows, as a fitted
  model keeps the mean of the first feature, scores a row by its distance to that mean
  and flags a row further than 10 away.
\<close>

definition mean_scorer :: "(unit, rat) sklearn" where
  "mean_scorer =
     \<lparr>fit_seeded = (\<lambda>seed X. if X = [] then Inl (ValueError ''Found array with 0 sample(s)'')
                               else Inr (sum_list (map hd X) / rat_of_nat (length X))),
      fit_global = (\<lambda>g X. if X = [] then Inl (ValueError ''Found array with 0 sample(s)'')
                            else Inr (sum_list (map hd X) / rat_of_nat (length X))),
      score_sample = (\<lambda>m row. - \<bar>hd row - m\<bar>),
      predict_sample = (\<lambda>m row. if \<bar>hd row - m\<bar> > 10 then - 1 else 1)\<rparr>"

text \<open>Columns of one name hold one content.\<close>

definition functional :: "('a \<times> 'b) list \<Rightarrow> bool" where
  "functional cols \<longleftrightarrow> (\<forall>c d1 d2. (c, d1) \<in> set cols \<and> (c, d2) \<in> set cols \<longrightarrow> d1 = d2)"

text \<open>What one pass of the realignment loop does to the column it reads.\<close>

definition fix_column :: "cell option list \<Rightarrow> cell option list" where
  "fix_column cd = shift (isna_sum cd) cd"

text \<open>
  A scored view: a frame over a \<^verbatim>\<open>RangeIndex\<close> of \<open>m\<close> rows with the given column
  names and no missing cell.
\<close>

definition view_shape :: "nat \<Rightarrow> string list \<Rightarrow> frame \<Rightarrow> bool" where
  "view_shape m names df \<longleftrightarrow>
     wf_frame df \<and> nrows df = m \<and> map fst (columns df) = names \<and>
     list_all (\<lambda>col. None \<notin> set (snd col)) (columns df)"

text \<open>
  The columns of every scored view of a run, in the order of the merge: Raw, Delta, one
  Window view per window, one WindowDelta view per window.
\<close>

definition scored_views :: "('g, 'm) sklearn \<Rightarrow> 'g \<Rightarrow> int list \<Rightarrow> int list \<Rightarrow> int list
    \<Rightarrow> string option \<Rightarrow> string option \<Rightarrow> bool option \<Rightarrow> (string \<times> cell option list) list" where
  "scored_views sk g d t ws x y time =
     columns (projr (getBase sk g d t x y time)) @
     columns (projr (getBaseDelta sk g d t x y)) @
     concat (map (\<lambda>w. columns (snd (projr (getWindows_body sk g d t x y w)))) ws) @
     concat (map (\<lambda>w. columns (projr (getWindowsDelta_body sk g d t x y w))) ws)"

text \<open>
  The column names of the merged table: the four of Raw, the three of Delta, three per
  Window view and three per WindowDelta view.
\<close>

definition view_names :: "int list \<Rightarrow> string list" where
  "view_names ws =
     [''baseScores'', ''Anomaly'', ''Incidents'', ''Date''] @
     [''deltaScores'', ''deltaAnomaly'', ''deltaIncidents''] @
     concat (map (\<lambda>w. [''window'' @ str w @ ''Scores'', ''window'' @ str w @ ''Anomaly'',
                        ''window'' @ str w @ ''Incidents'']) ws) @
     concat (map (\<lambda>w. [''windowDelta'' @ str w @ ''Scores'', ''windowDelta'' @ str w @ ''Anomaly'',
                        ''windowDelta'' @ str w @ ''Incidents'']) ws)"

text \<open>
  The worked example of the specification: six consecutive days, one outlier, the window
  list \<open>[2]\<close>; and the table the embedding computes for it with \<open>mean_scorer\<close>.
\<close>

definition sample_series :: "int list" where
  "sample_series = [10, 10, 10, 50, 10, 10]"

definition sample_stamps :: "int list" where
  "sample_stamps = [0, 86400000000000, 172800000000000, 259200000000000, 345600000000000,
     432000000000000]"

definition sample_table :: frame where
  "sample_table =
     \<lparr>index = [RangeLabel 0, RangeLabel 1, RangeLabel 2, RangeLabel 3, RangeLabel 4, RangeLabel 5],
      columns =
        [(''baseScores'',
            [Some (Float (- (20 / 3))), Some (Float (- (20 / 3))), Some (Float (- (20 / 3))),
             Some (Float (- (100 / 3))), Some (Float (- (20 / 3))), Some (Float (- (20 / 3)))]),
         (''Anomaly'',
            [Some (Integer 1), Some (Integer 1), Some (Integer 1), Some (Integer (- 1)),
             Some (Integer 1), Some (Integer 1)]),
         (''Incidents'',
            [Some (Integer 10), Some (Integer 10), Some (Integer 10), Some (Integer 50),
             Some (Integer 10), Some (Integer 10)]),
         (''Date'', [Some (Day 0), Some (Day 1), Some (Day 2), Some (Day 3), Some (Day 4), Some (Day 5)]),
         (''deltaScores'',
            [None, Some (Float 0), Some (Float 0), Some (Float (- 40)), Some (Float (- 40)),
             Some (Float 0)]),
         (''deltaAnomaly'',
            [None, Some (Integer 1), Some (Integer 1), Some (Integer (- 1)), Some (Integer (- 1)),
             Some (Integer 1)]),
         (''deltaIncidents'',
            [None, Some (Float 0), Some (Float 0), Some (Float 40), Some (Float (- 40)), Some (Float 0)]),
         (''window2Scores'',
            [None, Some (Float (- 8)), Some (Float (- 8)), Some (Float (- 12)), Some (Float (- 12)),
             Some (Float (- 8))]),
         (''window2Anomaly'',
            [None, Some (Integer 1), Some (Integer 1), Some (Integer (- 1)), Some (Integer (- 1)),
             Some (Integer 1)]),
         (''window2Incidents'',
            [None, Some (Float 10), Some (Float 10), Some (Float 30), Some (Float 30), Some (Float 10)]),
         (''windowDelta2Scores'',
            [None, Some (Float 0), Some (Float 0), Some (Float (- 40)), Some (Float (- 40)),
             Some (Float 0)]),
         (''windowDelta2Anomaly'',
            [None, Some (Integer 1), Some (Integer 1), Some (Integer (- 1)), Some (Integer (- 1)),
             Some (Integer 1)]),
         (''windowDelta2Incidents'',
            [None, Some (Float 0), Some (Float 0), Some (Float 40), Some (Float (- 40)),
             Some (Float 0)])]\<rparr>"

text \<open>
  A scorer whose unseeded fit reads the process-wide generator: the fitted model is the
  seed when one is given, and the generator's state otherwise.
\<close>

definition drifting_scorer :: "(rat, rat) sklearn" where
  "drifting_scorer =
     \<lparr>fit_seeded = (\<lambda>seed X. Inr (rat_of_nat seed)),
      fit_global = (\<lambda>g X. Inr g),
      score_sample = (\<lambda>m row. m),
      predict_sample = (\<lambda>m row. 1)\<rparr>"

section \<open>The view functions in closed form\<close>



lemma bindE_simps [simp]: "bindE (Inl e) f = Inl e" "bindE (Inr v) f = f v"
  by (simp_all add: bindE_def)

lemma setitem_DataFrame: "setitem name vals DataFrame = Inr (range_frame (length vals) [(name, vals)])"
  by (simp add: setitem_def DataFrame_def range_frame_def put_def)

lemma setitem_range_frame:
  "setitem name vals (range_frame m cols) =
     (if m = 0 then Inr (range_frame (length vals) (put name vals (map (\<lambda>(c, d). (c, replicate (length vals) None)) cols)))
      else if length vals \<noteq> m then Inl (ValueError ''Length of values does not match length of index'')
      else Inr (range_frame m (put name vals cols)))"
  by (auto simp add: setitem_def range_frame_def Let_def)

lemma getitem_range_frame: "getitem name (range_frame m cols) = (case map_of cols name of None \<Rightarrow> Inl (KeyError name) | Some d \<Rightarrow> Inr d)"
  by (simp add: getitem_def range_frame_def)

lemma drop_column_range_frame:
  "drop_column name (range_frame m cols) =
     (if name \<in> fst ` set cols then Inr (range_frame m (filter (\<lambda>(c, d). c \<noteq> name) cols)) else Inl (KeyError name))"
  by (simp add: drop_column_def range_frame_def)

lemma set_columns_range_frame:
  "set_columns names (range_frame m cols) =
     (if length names \<noteq> length cols then Inl (ValueError ''Length mismatch'')
      else Inr (range_frame m (zip names (map snd cols))))"
  by (simp add: set_columns_def range_frame_def)

lemma rename_at_range_frame:
  "rename_at i name (range_frame m cols) =
     (if i < length cols then Inr (range_frame m (cols[i := (name, snd (cols ! i))]))
      else Inl (IndexError ''index out of bounds''))"
  by (simp add: rename_at_def range_frame_def)

lemma bindE_getPlot:
  "bindE (getPlot d t (range_frame m cols) ttl xx yy) (\<lambda>_. k) =
     (if ''Anomaly'' \<notin> fst ` set cols then Inl (KeyError ''Anomaly'')
      else if ''Date'' \<notin> fst ` set cols then Inl (KeyError ''Date'')
      else if ''Incidents'' \<notin> fst ` set cols then Inl (KeyError ''Incidents'')
      else if length t \<noteq> length d then Inl (ValueError ''x and y must have same first dimension'')
      else k)"
proof (cases "map_of cols ''Anomaly''")
  case None
  then have "''Anomaly'' \<notin> fst ` set cols"
    by (simp add: map_of_eq_None_iff)
  with None show ?thesis
    by (simp add: getPlot_def getitem_range_frame)
next
  case (Some a)
  then have a: "''Anomaly'' \<in> fst ` set cols"
    by (metis map_of_eq_None_iff option.distinct(1))
  show ?thesis
    using Some a
    by (simp add: getPlot_def getitem_range_frame loc_def range_frame_def getitem_def)
qed

lemmas frame_simps = Let_def setitem_DataFrame setitem_range_frame put_def getitem_range_frame
  bindE_getPlot decision_function_def predict_def dt_date_def drop_column_range_frame
  set_columns_range_frame rename_at_range_frame

lemma getBase_eq:
  "getBase sk g d t xx yy time =
     (case fit sk g random_state (map (\<lambda>v. [rat_of_int v]) d) of
        Inl e \<Rightarrow> Inl e
      | Inr clf \<Rightarrow>
          if time = Some False then Inl (KeyError ''Date'')
          else if length t \<noteq> length d
          then Inl (ValueError (if d = [] then ''x and y must have same first dimension''
                                else ''Length of values does not match length of index''))
          else Inr (range_frame (length d)
                 [(''baseScores'', decision_function sk clf (map (\<lambda>v. [rat_of_int v]) d)),
                  (''Anomaly'', predict sk clf (map (\<lambda>v. [rat_of_int v]) d)),
                  (''Incidents'', map (\<lambda>v. Some (Integer v)) d),
                  (''Date'', if time = None then map (\<lambda>t. Some (Day (t div ns_per_day))) t
                             else map (\<lambda>t. Some (Datetime t)) t)]))"
proof (cases "fit sk g random_state (map (\<lambda>v. [rat_of_int v]) d)")
  case (Inl e)
  then show ?thesis by (simp add: getBase_def)
next
  case (Inr clf)
  consider "time = None" | "time = Some True" | "time = Some False"
    by (cases time) auto
  then show ?thesis
  proof cases
    case 1
    then show ?thesis using Inr 
      by (simp add: getBase_def frame_simps comp_def)
  next
    case 2
    then show ?thesis using Inr
      by (simp add: getBase_def frame_simps comp_def)
  next
    case 3
    then show ?thesis using Inr
      by (simp add: getBase_def frame_simps comp_def)
  qed
qed


lemma map_filter_Cons_None: "f x = None \<Longrightarrow> List.map_filter f (x # xs) = List.map_filter f xs"
  by (simp add: List.map_filter_def)

lemma diff_Cons: "diff (x # rest) = None # map (\<lambda>(a, b). Some (rat_of_int (b - a))) (zip (x # rest) rest)"
  by (simp add: diff_def)

lemma diff_Nil: "diff [] = []"
  by (simp add: diff_def)

lemma length_diff: "length (diff d) = length d"
  by (cases d) (simp_all add: diff_def)

lemma isna_sum_diff: "isna_sum (diff d) = (if d = [] then 0 else 1)"
proof (cases d)
  case Nil
  then show ?thesis by (simp add: diff_def isna_sum_def)
next
  case (Cons x rest)
  have "filter (\<lambda>c. c = None) (map (\<lambda>(a, b). Some (rat_of_int (b - a))) (zip (x # rest) rest)) = []"
    by (auto simp: filter_empty_conv)
  then show ?thesis using Cons by (simp add: diff_Cons isna_sum_def)
qed

lemma drop1_diff: "drop (Suc 0) (diff d) = map (\<lambda>(a, b). Some (rat_of_int (b - a))) (zip d (tl d))"
  by (cases d) (simp_all add: diff_def)

lemma dropna_rows_delta:
  "dropna_rows (concat_series (diff d) (map (\<lambda>v. Some (rat_of_int v)) d)) = delta_rows d"
proof (cases d)
  case Nil
  then show ?thesis by (simp add: diff_def concat_series_def dropna_rows_def delta_rows_def List.map_filter_def)
next
  case (Cons x rest)
  have z: "zip (map (\<lambda>(a, b). Some (rat_of_int (b - a))) (zip (x # rest) rest)) (map (\<lambda>v. Some (rat_of_int v)) rest)
      = map (\<lambda>(a, b). (Some (rat_of_int (b - a)), Some (rat_of_int b))) (zip (x # rest) rest)"
    by (induction rest arbitrary: x) simp_all
  have "List.map_filter those (map (\<lambda>(a, b). [Some (rat_of_int (b - a)), Some (rat_of_int b)]) (zip (x # rest) rest))
      = map (\<lambda>(a, b). [rat_of_int (b - a), rat_of_int b]) (zip (x # rest) rest)"
    by (simp add: List.map_filter_def comp_def case_prod_unfold)
  then show ?thesis
    using Cons z
    by (simp add: diff_Cons concat_series_def dropna_rows_def delta_rows_def map_filter_Cons_None comp_def case_prod_unfold)
qed

lemma hd_concat_series: "length a = length b \<Longrightarrow> map hd (concat_series a b) = a"
  by (simp add: concat_series_def comp_def case_prod_unfold)

lemma length_delta_rows [simp]: "length (delta_rows d) = length d - 1"
  by (simp add: delta_rows_def)

lemma zip_tl_short: "length d \<le> Suc 0 \<Longrightarrow> zip d (tl d) = []"
  by (cases d) auto

lemma delta_rows_short: "length d \<le> Suc 0 \<Longrightarrow> delta_rows d = []"
  by (simp add: delta_rows_def zip_tl_short)

lemma delta_rows_Nil_iff: "delta_rows d = [] \<longleftrightarrow> length d \<le> Suc 0"
  by (cases d; cases "tl d") (auto simp: delta_rows_def)

lemmas delta_simps = dropna_rows_delta hd_concat_series length_diff isna_sum_diff drop1_diff
  zip_tl_short delta_rows_Nil_iff delta_rows_short comp_def case_prod_unfold

lemma getBaseDelta_eq:
  "getBaseDelta sk g d t xx yy =
     (case fit sk g random_state (delta_rows d) of
        Inl e \<Rightarrow> Inl e
      | Inr clf \<Rightarrow>
          if length t \<noteq> length d
          then Inl (ValueError (if length d \<le> 1 then ''x and y must have same first dimension''
                                else ''Length of values does not match length of index''))
          else Inr (range_frame (length d - 1)
                 [(''deltaScores'', decision_function sk clf (delta_rows d)),
                  (''deltaAnomaly'', predict sk clf (delta_rows d)),
                  (''deltaIncidents'', map (\<lambda>(a, b). Some (Float (rat_of_int (b - a)))) (zip d (tl d)))]))"
proof (cases "fit sk g random_state (delta_rows d)")
  case (Inl e)
  then show ?thesis by (simp add: getBaseDelta_def dropna_rows_delta Let_def)
next
  case (Inr clf)
  then show ?thesis
    by (auto simp add: getBaseDelta_def frame_simps delta_simps)
qed

lemma getWindowsDelta_body_eq:
  "getWindowsDelta_body sk g d t xx yy val =
     (case fit sk g random_state (delta_rows d) of
        Inl e \<Rightarrow> Inl e
      | Inr clf \<Rightarrow>
          if length t \<noteq> length d
          then Inl (ValueError (if length d \<le> 1 then ''x and y must have same first dimension''
                                else ''Length of values does not match length of index''))
          else Inr (range_frame (length d - 1)
                 [(''windowDelta'' @ str val @ ''Scores'', decision_function sk clf (delta_rows d)),
                  (''windowDelta'' @ str val @ ''Anomaly'', predict sk clf (delta_rows d)),
                  (''windowDelta'' @ str val @ ''Incidents'', map (\<lambda>(a, b). Some (Float (rat_of_int (b - a)))) (zip d (tl d)))]))"
proof (cases "fit sk g random_state (delta_rows d)")
  case (Inl e)
  then show ?thesis by (simp add: getWindowsDelta_body_def dropna_rows_delta Let_def)
next
  case (Inr clf)
  show ?thesis
  proof (cases "d = []")
    case True
    have e: "dropna_rows (concat_series [] []) = []" "isna_sum ([] :: rat option list) = 0" "delta_rows [] = []"
      by (simp_all add: dropna_rows_def concat_series_def List.map_filter_def isna_sum_def delta_rows_def)
    show ?thesis using Inr True
      by (simp add: getWindowsDelta_body_def e frame_simps diff_Nil comp_def)
  next
    case False
    then show ?thesis using Inr
      by (auto simp add: getWindowsDelta_body_def frame_simps delta_simps)
  qed
qed


lemma getWindowsDelta_body_refines:
  "getWindowsDelta_body sk g dataCol timeCol xx yy val =
     bindE (getBaseDelta sk g dataCol timeCol xx yy)
       (set_columns [''windowDelta'' @ str val @ ''Scores'', ''windowDelta'' @ str val @ ''Anomaly'',
                     ''windowDelta'' @ str val @ ''Incidents''])"
  by (simp add: getWindowsDelta_body_eq getBaseDelta_eq set_columns_range_frame split: sum.splits)

lemma length_rolling_mean [simp]: "length (rolling_mean w d) = length d"
  by (simp add: rolling_mean_def)

lemma isna_sum_le: "isna_sum xs \<le> length xs"
  by (simp add: isna_sum_def)

lemma length_dropna: "length (dropna xs) = length xs - isna_sum xs"
proof (induction xs)
  case Nil
  then show ?case by (simp add: dropna_def isna_sum_def List.map_filter_def)
next
  case (Cons x xs)
  have "length (filter (\<lambda>c. c = None) xs) \<le> length xs" by simp
  with Cons show ?case
    by (cases x) (auto simp add: dropna_def isna_sum_def List.map_filter_def Suc_diff_le)
qed

lemma dropna_Nil_iff: "dropna xs = [] \<longleftrightarrow> length xs \<le> isna_sum xs"
  using length_dropna [of xs] isna_sum_le [of xs] by (metis diff_is_0_eq length_0_conv)

lemma getWindows_body_eq:
  "getWindows_body sk g d t xx yy val =
     (if val < 0 then Inl (ValueError ''window must be an integer 0 or greater'')
      else
        case fit sk g random_state (map (\<lambda>v. [v]) (dropna (rolling_mean (nat val) d))) of
          Inl e \<Rightarrow> Inl e
        | Inr clf \<Rightarrow>
            if length t \<noteq> length d
            then Inl (ValueError (if length d \<le> isna_sum (rolling_mean (nat val) d)
                                  then ''x and y must have same first dimension''
                                  else ''Length of values does not match length of index''))
            else Inr (dropna (rolling_mean (nat val) d),
                   range_frame (length d - isna_sum (rolling_mean (nat val) d))
                     [(''window'' @ str val @ ''Scores'',
                         decision_function sk clf (map (\<lambda>v. [v]) (dropna (rolling_mean (nat val) d)))),
                      (''window'' @ str val @ ''Anomaly'',
                         predict sk clf (map (\<lambda>v. [v]) (dropna (rolling_mean (nat val) d)))),
                      (''window'' @ str val @ ''Incidents'',
                         map (\<lambda>v. Some (Float v)) (dropna (rolling_mean (nat val) d)))]))"
proof (cases "val < 0")
  case True
  then show ?thesis by (simp add: getWindows_body_def rolling_def)
next
  case nonneg: False
  show ?thesis
  proof (cases "fit sk g random_state (map (\<lambda>v. [v]) (dropna (rolling_mean (nat val) d)))")
    case (Inl e)
    then show ?thesis using nonneg by (simp add: getWindows_body_def rolling_def Let_def)
  next
    case (Inr clf)
    have le: "isna_sum (rolling_mean (nat val) d) \<le> length d"
      using isna_sum_le [of "rolling_mean (nat val) d"] by simp
    show ?thesis
    proof (cases "length d \<le> isna_sum (rolling_mean (nat val) d)")
      case True
      then have "dropna (rolling_mean (nat val) d) = []"
        by (simp add: dropna_Nil_iff)
      then show ?thesis using nonneg Inr True le
        by (auto simp add: getWindows_body_def rolling_def frame_simps)
    next
      case False
      then have "dropna (rolling_mean (nat val) d) \<noteq> []"
        by (simp add: dropna_Nil_iff)
      then show ?thesis using nonneg Inr False le
        by (auto simp add: getWindows_body_def rolling_def frame_simps length_dropna)
    qed
  qed
qed

lemma str_2: "str 2 = ''2''"
  by (simp add: str_def digits.simps)

section \<open>Merging frames\<close>

lemma filter_ge_upt: "filter (\<lambda>i. \<not> i < a) [0..<b] = [a..<b]"
proof (induction b)
  case 0
  then show ?case by simp
next
  case (Suc b)
  then show ?case by (cases "a \<le> b") (auto simp: upt_rec [of a "Suc b"] not_less)
qed

lemma union_index_range:
  "union_index (map RangeLabel [0..<a]) (map RangeLabel [0..<b]) = map RangeLabel [0..<max a b]"
proof -
  have "filter (\<lambda>l. l \<notin> set (map RangeLabel [0..<a])) (map RangeLabel [0..<b])
      = map RangeLabel (filter (\<lambda>i. \<not> i < a) [0..<b])"
    by (auto simp add: filter_map comp_def image_iff intro!: arg_cong [where f = "map RangeLabel"] filter_cong)
  also have "\<dots> = map RangeLabel [a..<b]"
    by (simp add: filter_ge_upt)
  finally have "union_index (map RangeLabel [0..<a]) (map RangeLabel [0..<b])
      = map RangeLabel ([0..<a] @ [a..<b])"
    by (simp add: union_index_def)
  also have "[0..<a] @ [a..<b] = [0..<max a b]"
  proof (cases "a \<le> b")
    case True
    then have "[0..<a + (b - a)] = [0..<a] @ [a..<a + (b - a)]"
      by (intro upt_add_eq_append) simp
    then show ?thesis using True by (simp add: max_def)
  next
    case False
    then show ?thesis by (simp add: max_def)
  qed
  finally show ?thesis .
qed

lemma map_of_zip_range:
  "length d = m \<Longrightarrow> map_of (zip (map RangeLabel [0..<m]) d) (RangeLabel i) = (if i < m then Some (d ! i) else None)"
proof (cases "i < m")
  case True
  assume len: "length d = m"
  have "map_of (zip (map RangeLabel [0..<m]) d) (map RangeLabel [0..<m] ! i) = Some (d ! i)"
    using True len by (intro map_of_zip_nth) (simp_all add: distinct_map inj_on_def)
  then show ?thesis using True by simp
next
  case False
  assume len: "length d = m"
  have "RangeLabel i \<notin> set (map RangeLabel [0..<m])" using False by auto
  then have "map_of (zip (map RangeLabel [0..<m]) d) (RangeLabel i) = None"
    using len by (simp add: map_of_zip_is_None)
  then show ?thesis using False by simp
qed

lemma reindex_range:
  assumes "length d = m" "m \<le> M"
  shows "reindex (map RangeLabel [0..<M]) (map RangeLabel [0..<m]) d = d @ replicate (M - m) None"
proof (rule nth_equalityI)
  show "length (reindex (map RangeLabel [0..<M]) (map RangeLabel [0..<m]) d) = length (d @ replicate (M - m) None)"
    using assms by (simp add: reindex_def)
next
  fix i assume "i < length (reindex (map RangeLabel [0..<M]) (map RangeLabel [0..<m]) d)"
  then have i: "i < M" by (simp add: reindex_def)
  then show "reindex (map RangeLabel [0..<M]) (map RangeLabel [0..<m]) d ! i = (d @ replicate (M - m) None) ! i"
    using assms by (simp add: reindex_def map_of_zip_range nth_append)
qed

lemma wf_range_frame: "wf_frame (range_frame m cols) \<longleftrightarrow> list_all (\<lambda>col. length (snd col) = m) cols"
  by (simp add: wf_frame_def range_frame_def nrows_def)

lemma nrows_range_frame [simp]: "nrows (range_frame m cols) = m"
  by (simp add: range_frame_def nrows_def)

lemma columns_range_frame [simp]: "columns (range_frame m cols) = cols"
  by (simp add: range_frame_def)

lemma index_range_frame [simp]: "index (range_frame m cols) = map RangeLabel [0..<m]"
  by (simp add: range_frame_def)

lemma foldl_union_range:
  "list_all wf_frame dfs \<Longrightarrow>
   foldl union_index (map RangeLabel [0..<k]) (map index dfs) = map RangeLabel [0..<foldl max k (map nrows dfs)]"
proof (induction dfs arbitrary: k)
  case Nil
  then show ?case by simp
next
  case (Cons df dfs)
  then have "index df = map RangeLabel [0..<nrows df]" by (simp add: wf_frame_def)
  with Cons show ?case by (simp add: union_index_range)
qed

lemma le_foldl_max: "(k::nat) \<le> foldl max k xs"
proof (induction xs arbitrary: k)
  case Nil
  then show ?case by simp
next
  case (Cons x xs)
  have "max k x \<le> foldl max (max k x) xs" by (rule Cons.IH)
  then show ?case by simp
qed

lemma mem_le_foldl_max: "x \<in> set xs \<Longrightarrow> (x::nat) \<le> foldl max k xs"
proof (induction xs arbitrary: k)
  case Nil
  then show ?case by simp
next
  case (Cons y ys)
  show ?case
  proof (cases "x = y")
    case True
    have "max k y \<le> foldl max (max k y) ys" by (rule le_foldl_max)
    then show ?thesis using True by simp
  next
    case False
    then show ?thesis using Cons by simp
  qed
qed

lemma concat_axis1_wf:
  assumes "list_all wf_frame dfs"
  shows "concat_axis1 dfs =
     range_frame (foldl max 0 (map nrows dfs))
       (concat (map (\<lambda>df. map (pad_column (foldl max 0 (map nrows dfs))) (columns df)) dfs))"
proof -
  let ?M = "foldl max 0 (map nrows dfs)"
  have idx: "foldl union_index [] (map index dfs) = map RangeLabel [0..<?M]"
    using foldl_union_range [OF assms, of 0] by simp
  have "map (\<lambda>(c, d). (c, reindex (map RangeLabel [0..<?M]) (index df) d)) (columns df)
      = map (pad_column ?M) (columns df)" if "df \<in> set dfs" for df
  proof (rule map_cong [OF refl])
    fix col assume col: "col \<in> set (columns df)"
    from that assms have wf: "wf_frame df" by (simp add: list_all_iff)
    then have len: "length (snd col) = nrows df" using col by (simp add: wf_frame_def list_all_iff)
    have le: "nrows df \<le> ?M" using that by (intro mem_le_foldl_max) simp
    have "index df = map RangeLabel [0..<nrows df]" using wf by (simp add: wf_frame_def)
    then show "(case col of (c, d) \<Rightarrow> (c, reindex (map RangeLabel [0..<?M]) (index df) d)) = pad_column ?M col"
      using len le by (cases col) (simp add: pad_column_def reindex_range)
  qed
  then show ?thesis
    using idx by (simp add: concat_axis1_def range_frame_def Let_def cong: map_cong)
qed

lemma pad_column_twice: "m \<le> M \<Longrightarrow> pad_column M (pad_column m col) = pad_column M col"
  by (cases "length (snd col) \<le> m") (auto simp add: pad_column_def replicate_add [symmetric])

section \<open>Column names\<close>

lemma digit_char_inj: "n < 10 \<Longrightarrow> m < 10 \<Longrightarrow> ''0123456789'' ! n = ''0123456789'' ! m \<Longrightarrow> n = m"
proof -
  assume "n < 10" "m < 10" "''0123456789'' ! n = ''0123456789'' ! m"
  moreover have "distinct ''0123456789''" by simp
  ultimately show "n = m" by (simp add: nth_eq_iff_index_eq)
qed

lemma digits_not_Nil: "digits n \<noteq> []" "[] \<noteq> digits n"
  by (subst digits.simps, simp)+

lemma set_digits: "set (digits n) \<subseteq> set ''0123456789''"
proof (induction n rule: digits.induct)
  case (1 n)
  show ?case
  proof (cases "n < 10")
    case True
    then have "''0123456789'' ! n \<in> set ''0123456789''" by (intro nth_mem) simp
    then show ?thesis using True by (subst digits.simps) simp
  next
    case False
    have "''0123456789'' ! (n mod 10) \<in> set ''0123456789''" by (intro nth_mem) simp
    then show ?thesis using False 1 by (subst digits.simps) simp
  qed
qed

lemma digits_inject: "digits n = digits m \<Longrightarrow> n = m"
proof (induction n arbitrary: m rule: digits.induct)
  case (1 n)
  show ?case
  proof (cases "n < 10")
    case n: True
    show ?thesis
    proof (cases "m < 10")
      case True
      with n "1.prems" show ?thesis
        by (simp add: digits.simps [of n] digits.simps [of m] digit_char_inj)
    next
      case False
      with n "1.prems" show ?thesis
        by (simp add: digits.simps [of n] digits.simps [of m] digits_not_Nil)
    qed
  next
    case n: False
    show ?thesis
    proof (cases "m < 10")
      case True
      with n "1.prems" show ?thesis
        by (simp add: digits.simps [of n] digits.simps [of m] digits_not_Nil)
    next
      case False
      with n "1.prems" have eq: "digits (n div 10) = digits (m div 10)"
        and c: "''0123456789'' ! (n mod 10) = ''0123456789'' ! (m mod 10)"
        by (simp_all add: digits.simps [of n] digits.simps [of m])
      from eq n have "n div 10 = m div 10" by (intro "1.IH") simp_all
      moreover from c have "n mod 10 = m mod 10" by (intro digit_char_inj) simp_all
      ultimately show ?thesis by (metis div_mult_mod_eq)
    qed
  qed
qed

lemma str_inject: "str a = str b \<Longrightarrow> a = b"
proof -
  assume eq: "str a = str b"
  have nd: "CHR ''-'' \<notin> set (digits n)" for n
    using set_digits [of n] by auto
  have hd: "digits n \<noteq> CHR ''-'' # r" for n r
    using nd [of n] by (metis list.set_intros(1))
  show ?thesis
  proof (cases "a < 0")
    case a: True
    show ?thesis
    proof (cases "b < 0")
      case True
      with a eq have "digits (nat (- a)) = digits (nat (- b))" by (simp add: str_def)
      then have "nat (- a) = nat (- b)" by (rule digits_inject)
      with a True show ?thesis by simp
    next
      case False
      with a eq hd show ?thesis by (simp add: str_def) metis
    qed
  next
    case a: False
    show ?thesis
    proof (cases "b < 0")
      case True
      with a eq hd show ?thesis by (simp add: str_def)
    next
      case False
      with a eq have "digits (nat a) = digits (nat b)" by (simp add: str_def)
      then have "nat a = nat b" by (rule digits_inject)
      with a False show ?thesis by simp
    qed
  qed
qed

lemma str_not_D: "str a @ s \<noteq> CHR ''D'' # r"
proof -
  have "CHR ''D'' \<notin> set (digits n)" for n
    using set_digits [of n] by auto
  then have "digits n @ s \<noteq> CHR ''D'' # r" for n
    using digits_not_Nil(1) [of n] by (cases "digits n") (simp, metis append_Cons list.inject list.set_intros(1))
  then show ?thesis by (simp add: str_def)
qed

lemma suffix_neq:
  "xs @ ''Scores'' \<noteq> ys @ ''Anomaly''" "xs @ ''Scores'' \<noteq> ys @ ''Incidents''"
  "xs @ ''Anomaly'' \<noteq> ys @ ''Scores''" "xs @ ''Anomaly'' \<noteq> ys @ ''Incidents''"
  "xs @ ''Incidents'' \<noteq> ys @ ''Scores''" "xs @ ''Incidents'' \<noteq> ys @ ''Anomaly''"
proof -
  have r: "rev a \<noteq> rev b \<Longrightarrow> a \<noteq> b" for a b :: string by auto
  show "xs @ ''Scores'' \<noteq> ys @ ''Anomaly''" by (rule r) simp
  show "xs @ ''Scores'' \<noteq> ys @ ''Incidents''" by (rule r) simp
  show "xs @ ''Anomaly'' \<noteq> ys @ ''Scores''" by (rule r) simp
  show "xs @ ''Anomaly'' \<noteq> ys @ ''Incidents''" by (rule r) simp
  show "xs @ ''Incidents'' \<noteq> ys @ ''Scores''" by (rule r) simp
  show "xs @ ''Incidents'' \<noteq> ys @ ''Anomaly''" by (rule r) simp
qed

lemma str_eq_iff: "str a = str b \<longleftrightarrow> a = b"
  using str_inject by auto

lemmas name_simps = suffix_neq str_eq_iff str_not_D str_not_D [symmetric]

lemma functional_views:
  "functional
     ([(''baseScores'', b1), (''Anomaly'', b2), (''Incidents'', b3), (''Date'', b4)] @
      [(''deltaScores'', d1), (''deltaAnomaly'', d2), (''deltaIncidents'', d3)] @
      concat (map (\<lambda>w. [(''window'' @ str w @ ''Scores'', A w), (''window'' @ str w @ ''Anomaly'', B w),
                         (''window'' @ str w @ ''Incidents'', C w)]) ws) @
      concat (map (\<lambda>w. [(''windowDelta'' @ str w @ ''Scores'', A' w),
                         (''windowDelta'' @ str w @ ''Anomaly'', B' w),
                         (''windowDelta'' @ str w @ ''Incidents'', C' w)]) ws'))"
  unfolding functional_def by (auto simp add: name_simps)

section \<open>The realignment loop\<close>

lemma dropna_series_Nil: "dropna_series [] [] = []"
  by (simp add: dropna_series_def List.map_filter_def)

lemma dropna_series_Cons:
  "dropna_series (i # idx) (c # cd) =
     (case c of None \<Rightarrow> dropna_series idx cd | Some v \<Rightarrow> (i, v) # dropna_series idx cd)"
  by (cases c) (simp_all add: dropna_series_def List.map_filter_def)

lemma fst_dropna_series: "length idx = length cd \<Longrightarrow> fst ` set (dropna_series idx cd) \<subseteq> set idx"
  by (induction idx cd rule: list_induct2) (auto simp add: dropna_series_Nil dropna_series_Cons split: option.splits)

lemma map_of_dropna_series:
  assumes "length idx = length cd" "distinct idx"
  shows "map_of (zip (map fst (dropna_series idx cd)) (map (\<lambda>(l, v). Some v) (dropna_series idx cd))) l =
     (case map_of (zip idx cd) l of Some (Some v) \<Rightarrow> Some (Some v) | _ \<Rightarrow> None)"
  using assms
proof (induction idx cd rule: list_induct2)
  case Nil
  then show ?case by (simp add: dropna_series_def List.map_filter_def)
next
  case (Cons i idx c cd)
  then have IH: "map_of (zip (map fst (dropna_series idx cd)) (map (\<lambda>(l, v). Some v) (dropna_series idx cd))) l =
     (case map_of (zip idx cd) l of Some (Some v) \<Rightarrow> Some (Some v) | _ \<Rightarrow> None)" by simp
  show ?case
  proof (cases c)
    case None
    then have s: "dropna_series (i # idx) (c # cd) = dropna_series idx cd"
      by (simp add: dropna_series_def List.map_filter_def)
    show ?thesis
    proof (cases "l = i")
      case True
      have "i \<notin> fst ` set (dropna_series idx cd)"
        using fst_dropna_series [OF Cons.hyps] Cons.prems by auto
      then have "i \<notin> set (map fst (dropna_series idx cd))" by simp
      then have "map_of (zip (map fst (dropna_series idx cd)) (map (\<lambda>(l, v). Some v) (dropna_series idx cd))) i = None"
        by (simp add: map_of_zip_is_None)
      then show ?thesis using True None s by simp
    next
      case False
      then show ?thesis using IH s by simp
    qed
  next
    case (Some v)
    then have s: "dropna_series (i # idx) (c # cd) = (i, v) # dropna_series idx cd"
      by (simp add: dropna_series_def List.map_filter_def)
    show ?thesis using IH s Some by simp
  qed
qed

lemma reindex_dropna_series:
  assumes "length idx = length cd" "distinct idx"
  shows "reindex idx (map fst (dropna_series idx cd)) (map (\<lambda>(l, v). Some v) (dropna_series idx cd)) = cd"
proof (rule nth_equalityI)
  show "length (reindex idx (map fst (dropna_series idx cd)) (map (\<lambda>(l, v). Some v) (dropna_series idx cd))) = length cd"
    using assms by (simp add: reindex_def)
next
  fix i assume "i < length (reindex idx (map fst (dropna_series idx cd)) (map (\<lambda>(l, v). Some v) (dropna_series idx cd)))"
  then have i: "i < length idx" by (simp add: reindex_def)
  have "map_of (zip idx cd) (idx ! i) = Some (cd ! i)"
    using assms i by (intro map_of_zip_nth) simp_all
  then show "reindex idx (map fst (dropna_series idx cd)) (map (\<lambda>(l, v). Some v) (dropna_series idx cd)) ! i = cd ! i"
    using i by (simp add: reindex_def map_of_dropna_series [OF assms] split: option.splits)
qed

lemma realign_column_range:
  assumes "length cd = n" "c \<in> fst ` set cols"
  shows "realign_column (range_frame n cols) (c, cd) =
     range_frame n (map (\<lambda>(c', d'). if c' = c then (c', fix_column cd) else (c', d')) cols)"
proof -
  have "distinct (map RangeLabel [0..<n])" by (simp add: distinct_map inj_on_def)
  then have "reindex (map RangeLabel [0..<n]) (map fst (dropna_series (map RangeLabel [0..<n]) cd))
      (map (\<lambda>(l, v). Some v) (dropna_series (map RangeLabel [0..<n]) cd)) = cd"
    using assms(1) by (intro reindex_dropna_series) simp_all
  then show ?thesis
    using assms(2)
    by (simp add: realign_column_def setitem_series_def shift_item_def range_frame_def put_def
        fix_column_def Let_def comp_def case_prod_unfold image_iff)
qed

lemma length_fix_column [simp]: "length (fix_column d) = length d"
  by (simp add: fix_column_def shift_def)

lemma length_fix_column_pow [simp]: "length ((fix_column ^^ k) d) = length d"
  by (induction k) simp_all

text \<open>
  After the passes over the first \<open>i\<close> positions, a column has been realigned once for
  every one of those positions that carries its name.
\<close>

lemma foldl_realign_column:
  assumes "list_all (\<lambda>col. length (snd col) = n) cols" "functional cols" "i \<le> length cols"
  shows "foldl (\<lambda>df j. realign_column df (columns df ! j)) (range_frame n cols) [0..<i] =
     range_frame n
       (map (\<lambda>col. (fst col, (fix_column ^^ count_list (map fst (take i cols)) (fst col)) (snd col))) cols)"
  using assms(3)
proof (induction i)
  case 0
  show ?case by simp
next
  case (Suc i)
  let ?k = "\<lambda>c. count_list (map fst (take i cols)) c"
  let ?cols' = "map (\<lambda>col. (fst col, (fix_column ^^ ?k (fst col)) (snd col))) cols"
  from Suc.prems have i: "i < length cols" by simp
  obtain c d where cd: "cols ! i = (c, d)" by (cases "cols ! i")
  have mem: "(c, d) \<in> set cols" using i cd by (metis nth_mem)
  then have len: "length d = n" using assms(1) by (auto simp add: list_all_iff)
  have cur: "?cols' ! i = (c, (fix_column ^^ ?k c) d)" using i cd by simp
  have c: "c \<in> fst ` set ?cols'" using mem by (force simp add: image_iff)
  have len': "length ((fix_column ^^ ?k c) d) = n" using len by simp
  have "foldl (\<lambda>df j. realign_column df (columns df ! j)) (range_frame n cols) [0..<Suc i] =
      realign_column (range_frame n ?cols') (?cols' ! i)"
    using Suc.IH i by simp
  also have "\<dots> = range_frame n
      (map (\<lambda>(c', d'). if c' = c then (c', fix_column ((fix_column ^^ ?k c) d)) else (c', d')) ?cols')"
    unfolding cur by (rule realign_column_range [OF len' c])
  also have "map (\<lambda>(c', d'). if c' = c then (c', fix_column ((fix_column ^^ ?k c) d)) else (c', d')) ?cols' =
      map (\<lambda>col. (fst col, (fix_column ^^ count_list (map fst (take (Suc i) cols)) (fst col)) (snd col))) cols"
    unfolding map_map
  proof (rule map_cong [OF refl])
    fix col assume col: "col \<in> set cols"
    have t: "map fst (take (Suc i) cols) = map fst (take i cols) @ [c]"
      using i cd by (simp add: take_Suc_conv_app_nth)
    show "((\<lambda>(c', d'). if c' = c then (c', fix_column ((fix_column ^^ ?k c) d)) else (c', d')) \<circ>
        (\<lambda>col. (fst col, (fix_column ^^ ?k (fst col)) (snd col)))) col =
        (fst col, (fix_column ^^ count_list (map fst (take (Suc i) cols)) (fst col)) (snd col))"
    proof (cases "fst col = c")
      case True
      then have "(c, snd col) \<in> set cols" using col by (metis prod.collapse)
      with mem assms(2) have "snd col = d" by (auto simp add: functional_def)
      then show ?thesis using True by (simp add: t count_list_append)
    next
      case False
      then show ?thesis by (simp add: t count_list_append)
    qed
  qed
  finally show ?case .
qed

lemma realign_functional:
  assumes "list_all (\<lambda>col. length (snd col) = n) cols" "functional cols"
  shows "realign (range_frame n cols) =
     range_frame n (map (\<lambda>col. (fst col, (fix_column ^^ count_list (map fst cols) (fst col)) (snd col))) cols)"
  using foldl_realign_column [OF assms, of "length cols"] by (simp add: realign_def)

lemma fix_column_pad:
  assumes "None \<notin> set d" "length d \<le> n"
  shows "fix_column (snd (pad_column n (c, d))) = snd (align n (c, d))"
proof -
  have "filter (\<lambda>x. x = None) d = []"
  proof (rule filter_False, rule ballI, rule notI)
    fix x assume "x \<in> set d" "x = None"
    with assms(1) show False by simp
  qed
  then have "isna_sum (d @ replicate (n - length d) None) = n - length d"
    by (simp add: isna_sum_def)
  then show ?thesis
    using assms(2) by (simp add: fix_column_def pad_column_def align_def shift_def)
qed

lemma functional_pad: "functional cols \<Longrightarrow> functional (map (pad_column n) cols)"
  unfolding functional_def pad_column_def by (auto simp add: image_iff) blast

lemma realign_padded:
  assumes "list_all (\<lambda>col. None \<notin> set (snd col) \<and> length (snd col) \<le> n) cols" "functional cols"
  shows "realign (range_frame n (map (pad_column n) cols)) =
     range_frame n
       (map (\<lambda>col. (fst col, (fix_column ^^ count_list (map fst cols) (fst col)) (snd (pad_column n col)))) cols)"
proof -
  have len: "list_all (\<lambda>col. length (snd col) = n) (map (pad_column n) cols)"
    using assms(1) by (auto simp add: list_all_iff pad_column_def)
  have names: "map fst (map (pad_column n) cols) = map fst cols"
    by (simp add: pad_column_def comp_def)
  show ?thesis
    unfolding realign_functional [OF len functional_pad [OF assms(2)]] names
    by (simp add: pad_column_def comp_def)
qed

lemma count_list_distinct: "distinct xs \<Longrightarrow> x \<in> set xs \<Longrightarrow> count_list xs x = 1"
  by (induction xs) (auto simp add: count_list_0_iff)

lemma fix_once_aligns:
  assumes "None \<notin> set (snd col)" "length (snd col) \<le> n"
  shows "(fst col, (fix_column ^^ 1) (snd (pad_column n col))) = align n col"
  using fix_column_pad [OF assms, of "fst col"] by (simp add: align_def)

section \<open>The loops over the window list\<close>

lemma getWindows_loop_Inr:
  "getWindows_loop sk g d t xx yy ws (r0, f0) = Inr (r, f) \<Longrightarrow>
     list_all (\<lambda>w. \<not> isl (getWindows_body sk g d t xx yy w)) ws \<and>
     r = r0 @ map (\<lambda>w. fst (projr (getWindows_body sk g d t xx yy w))) ws \<and>
     f = foldl (\<lambda>a w. concat_axis1 [a, snd (projr (getWindows_body sk g d t xx yy w))]) f0 ws"
proof (induction ws arbitrary: r0 f0)
  case Nil
  then show ?case by simp
next
  case (Cons w ws)
  show ?case
  proof (cases "getWindows_body sk g d t xx yy w")
    case (Inl e)
    with Cons.prems show ?thesis by simp
  next
    case (Inr p)
    obtain x1 x2 where p: "p = (x1, x2)" by (cases p)
    from Cons.prems Inr p
    have "getWindows_loop sk g d t xx yy ws (r0 @ [x1], concat_axis1 [f0, x2]) = Inr (r, f)"
      by simp
    from Cons.IH [OF this] show ?thesis using Inr p by simp
  qed
qed

lemma getWindows_loop_ok:
  "list_all (\<lambda>w. \<not> isl (getWindows_body sk g d t xx yy w)) ws \<Longrightarrow>
   getWindows_loop sk g d t xx yy ws (r0, f0) =
     Inr (r0 @ map (\<lambda>w. fst (projr (getWindows_body sk g d t xx yy w))) ws,
          foldl (\<lambda>a w. concat_axis1 [a, snd (projr (getWindows_body sk g d t xx yy w))]) f0 ws)"
proof (induction ws arbitrary: r0 f0)
  case Nil
  then show ?case by simp
next
  case (Cons w ws)
  show ?case
  proof (cases "getWindows_body sk g d t xx yy w")
    case (Inl e)
    with Cons.prems show ?thesis by simp
  next
    case (Inr p)
    obtain x1 x2 where p: "p = (x1, x2)" by (cases p)
    from Cons.prems have "list_all (\<lambda>w. \<not> isl (getWindows_body sk g d t xx yy w)) ws" by simp
    from Cons.IH [OF this, of "r0 @ [x1]" "concat_axis1 [f0, x2]"] show ?thesis using Inr p by simp
  qed
qed

lemma getWindowsDelta_loop_Inr:
  "getWindowsDelta_loop sk g d t xx yy ps f0 = Inr f \<Longrightarrow>
     list_all (\<lambda>w. \<not> isl (getWindowsDelta_body sk g d t xx yy w)) (map fst ps) \<and>
     f = foldl (\<lambda>a w. concat_axis1 [a, projr (getWindowsDelta_body sk g d t xx yy w)]) f0 (map fst ps)"
proof (induction ps arbitrary: f0)
  case Nil
  then show ?case by simp
next
  case (Cons p ps)
  obtain w c where p: "p = (w, c)" by (cases p)
  with Cons show ?case
    by (cases "getWindowsDelta_body sk g d t xx yy w") auto
qed

lemma getWindowsDelta_loop_ok:
  "list_all (\<lambda>w. \<not> isl (getWindowsDelta_body sk g d t xx yy w)) (map fst ps) \<Longrightarrow>
   getWindowsDelta_loop sk g d t xx yy ps f0 =
     Inr (foldl (\<lambda>a w. concat_axis1 [a, projr (getWindowsDelta_body sk g d t xx yy w)]) f0 (map fst ps))"
proof (induction ps arbitrary: f0)
  case Nil
  then show ?case by simp
next
  case (Cons p ps)
  obtain w c where p: "p = (w, c)" by (cases p)
  with Cons show ?case
    by (cases "getWindowsDelta_body sk g d t xx yy w") auto
qed

text \<open>Collecting frames side by side, one after the other.\<close>

lemma wf_pad_frame:
  "list_all (\<lambda>col. length (snd col) \<le> M) cols \<Longrightarrow> wf_frame (range_frame M (map (pad_column M) cols))"
  by (auto simp add: wf_range_frame list_all_iff pad_column_def)

lemma wf_frame_lengths: "wf_frame df \<Longrightarrow> col \<in> set (columns df) \<Longrightarrow> length (snd col) = nrows df"
  by (simp add: wf_frame_def list_all_iff)

lemma foldl_concat_axis1:
  assumes "list_all (\<lambda>w. wf_frame (F w)) ws" "list_all (\<lambda>col. length (snd col) \<le> M) cols"
  shows "foldl (\<lambda>a w. concat_axis1 [a, F w]) (range_frame M (map (pad_column M) cols)) ws =
     range_frame (foldl max M (map (\<lambda>w. nrows (F w)) ws))
       (map (pad_column (foldl max M (map (\<lambda>w. nrows (F w)) ws))) (cols @ concat (map (\<lambda>w. columns (F w)) ws)))"
  using assms
proof (induction ws arbitrary: M cols)
  case Nil
  then show ?case by simp
next
  case (Cons w ws)
  let ?M' = "max M (nrows (F w))"
  have wfF: "wf_frame (F w)" using Cons.prems(1) by simp
  have wf0: "wf_frame (range_frame M (map (pad_column M) cols))"
    using Cons.prems(2) by (rule wf_pad_frame)
  have step: "concat_axis1 [range_frame M (map (pad_column M) cols), F w] =
      range_frame ?M' (map (pad_column ?M') (map (pad_column M) cols) @ map (pad_column ?M') (columns (F w)))"
    using concat_axis1_wf [of "[range_frame M (map (pad_column M) cols), F w]"] wf0 wfF by simp
  have "map (pad_column ?M') (map (pad_column M) cols) = map (pad_column ?M') cols"
    by (simp add: pad_column_twice)
  with step have step': "concat_axis1 [range_frame M (map (pad_column M) cols), F w] =
      range_frame ?M' (map (pad_column ?M') (cols @ columns (F w)))"
    by simp
  have len: "list_all (\<lambda>col. length (snd col) \<le> ?M') (cols @ columns (F w))"
    using Cons.prems(2) wf_frame_lengths [OF wfF] by (auto simp add: list_all_iff)
  have rest: "list_all (\<lambda>w. wf_frame (F w)) ws" using Cons.prems(1) by simp
  show ?case
    using Cons.IH [OF rest len] step' by simp
qed

lemma DataFrame_range: "DataFrame = range_frame 0 (map (pad_column 0) [])"
  by (simp add: DataFrame_def range_frame_def)

lemma foldl_concat_axis1_DataFrame:
  assumes "list_all (\<lambda>w. wf_frame (F w)) ws"
  shows "foldl (\<lambda>a w. concat_axis1 [a, F w]) DataFrame ws =
     range_frame (foldl max 0 (map (\<lambda>w. nrows (F w)) ws))
       (map (pad_column (foldl max 0 (map (\<lambda>w. nrows (F w)) ws))) (concat (map (\<lambda>w. columns (F w)) ws)))"
  using foldl_concat_axis1 [OF assms, of 0 "[]"] by (simp add: DataFrame_range)

lemma foldl_max_le: "(k::nat) \<le> n \<Longrightarrow> \<forall>x\<in>set xs. x \<le> n \<Longrightarrow> foldl max k xs \<le> n"
  by (induction xs arbitrary: k) simp_all

section \<open>The shape of every view's frame\<close>

lemma view_shape_range_frame:
  "view_shape m names (range_frame k cols) \<longleftrightarrow>
     k = m \<and> map fst cols = names \<and> list_all (\<lambda>col. length (snd col) = m \<and> None \<notin> set (snd col)) cols"
  by (auto simp add: view_shape_def wf_range_frame list_all_iff)

lemma None_notin_scores [simp]:
  "None \<notin> set (decision_function sk clf X)" "None \<notin> set (predict sk clf X)"
  by (auto simp add: decision_function_def predict_def)

lemma length_scores [simp]:
  "length (decision_function sk clf X) = length X" "length (predict sk clf X) = length X"
  by (simp_all add: decision_function_def predict_def)

lemma getBase_shape:
  assumes "getBase sk g d t xx yy time = Inr df"
  shows "view_shape (length d) [''baseScores'', ''Anomaly'', ''Incidents'', ''Date''] df"
    and "length t = length d" and "time \<noteq> Some False"
  using assms
  by (auto simp add: getBase_eq view_shape_range_frame split: sum.splits if_splits)

lemma getBaseDelta_shape:
  assumes "getBaseDelta sk g d t xx yy = Inr df"
  shows "view_shape (length d - 1) [''deltaScores'', ''deltaAnomaly'', ''deltaIncidents''] df"
    and "length t = length d"
  using assms
  by (auto simp add: getBaseDelta_eq view_shape_range_frame split: sum.splits if_splits)

lemma getWindowsDelta_body_shape:
  assumes "getWindowsDelta_body sk g d t xx yy w = Inr df"
  shows "view_shape (length d - 1)
     [''windowDelta'' @ str w @ ''Scores'', ''windowDelta'' @ str w @ ''Anomaly'',
      ''windowDelta'' @ str w @ ''Incidents''] df"
  using assms
  by (auto simp add: getWindowsDelta_body_eq view_shape_range_frame split: sum.splits if_splits)

lemma getWindows_body_shape:
  assumes "getWindows_body sk g d t xx yy w = Inr (rc, df)"
  shows "view_shape (length d - isna_sum (rolling_mean (nat w) d))
     [''window'' @ str w @ ''Scores'', ''window'' @ str w @ ''Anomaly'', ''window'' @ str w @ ''Incidents''] df"
    and "rc = dropna (rolling_mean (nat w) d)" and "0 \<le> w"
  using assms
  by (auto simp add: getWindows_body_eq view_shape_range_frame length_dropna split: sum.splits if_splits)

lemma names3:
  "map fst cols = [a, b, c] \<Longrightarrow> cols = [(a, snd (cols ! 0)), (b, snd (cols ! 1)), (c, snd (cols ! 2))]"
  by (cases cols; cases "tl cols"; cases "tl (tl cols)") auto

lemma names4:
  "map fst cols = [a, b, c, e] \<Longrightarrow>
   cols = [(a, snd (cols ! 0)), (b, snd (cols ! 1)), (c, snd (cols ! 2)), (e, snd (cols ! 3))]"
  by (cases cols; cases "tl cols"; cases "tl (tl cols)"; cases "tl (tl (tl cols))") auto

lemma view_shape_cols:
  assumes "view_shape m names df" "m \<le> n"
  shows "list_all (\<lambda>col. None \<notin> set (snd col) \<and> length (snd col) \<le> n) (columns df)"
  using assms by (auto simp add: view_shape_def wf_frame_def list_all_iff)

section \<open>The merged table\<close>

lemma bindE_Inr_iff: "bindE m f = Inr r \<longleftrightarrow> (\<exists>v. m = Inr v \<and> f v = Inr r)"
  by (cases m) simp_all

lemma getIF_Inr_views:
  assumes "getIF sk g (Series d) (DatetimeIndex t) (PyList ws) x y time = Inr tbl"
  shows "\<not> isl (getBase sk g d t x y time)"
    and "\<not> isl (getBaseDelta sk g d t x y)"
    and "list_all (\<lambda>w. \<not> isl (getWindows_body sk g d t x y w)) ws"
    and "list_all (\<lambda>w. \<not> isl (getWindowsDelta_body sk g d t x y w)) ws"
    and "tbl = realign (concat_axis1
           [projr (getBase sk g d t x y time), projr (getBaseDelta sk g d t x y),
            foldl (\<lambda>a w. concat_axis1 [a, snd (projr (getWindows_body sk g d t x y w))]) DataFrame ws,
            foldl (\<lambda>a w. concat_axis1 [a, projr (getWindowsDelta_body sk g d t x y w)]) DataFrame ws])"
proof -
  from assms obtain fb rc rdf fd fwd where
    fb: "getBase sk g d t x y time = Inr fb" and
    w: "getWindows sk g d t ws x y = Inr (rc, rdf)" and
    fd: "getBaseDelta sk g d t x y = Inr fd" and
    wd: "getWindowsDelta sk g d t ws rc x y = Inr fwd" and
    tbl: "tbl = realign (concat_axis1 [fb, fd, rdf, fwd])"
    by (auto simp add: getIF_def bindE_Inr_iff)
  note wl = getWindows_loop_Inr [OF w [unfolded getWindows_def]]
  from wl have len: "length rc = length ws" by simp
  then have z: "map fst (zip ws rc) = ws" by simp
  note wdl = getWindowsDelta_loop_Inr [OF wd [unfolded getWindowsDelta_def], unfolded z]
  show "\<not> isl (getBase sk g d t x y time)" using fb by simp
  show "\<not> isl (getBaseDelta sk g d t x y)" using fd by simp
  show "list_all (\<lambda>w. \<not> isl (getWindows_body sk g d t x y w)) ws" using wl by simp
  show "list_all (\<lambda>w. \<not> isl (getWindowsDelta_body sk g d t x y w)) ws" using wdl by simp
  show "tbl = realign (concat_axis1
           [projr (getBase sk g d t x y time), projr (getBaseDelta sk g d t x y),
            foldl (\<lambda>a w. concat_axis1 [a, snd (projr (getWindows_body sk g d t x y w))]) DataFrame ws,
            foldl (\<lambda>a w. concat_axis1 [a, projr (getWindowsDelta_body sk g d t x y w)]) DataFrame ws])"
    using tbl fb fd wl wdl by simp
qed

lemma not_isl_projr: "\<not> isl m \<Longrightarrow> m = Inr (projr m)"
  by (cases m) simp_all

text \<open>
  The table of a run that returns: every column of a scored view, padded to the length
  of the series by the merge, and then realigned once for every column of the table that
  carries its name.
\<close>

lemma getIF_Inr_table:
  assumes "getIF sk g (Series d) (DatetimeIndex t) (PyList ws) x y time = Inr tbl"
  shows "tbl = range_frame (length d)
     (map (\<lambda>col. (fst col,
             (fix_column ^^ count_list (map fst (scored_views sk g d t ws x y time)) (fst col))
               (snd (pad_column (length d) col))))
        (scored_views sk g d t ws x y time))"
proof -
  let ?n = "length d"
  let ?B = "projr (getBase sk g d t x y time)"
  let ?D = "projr (getBaseDelta sk g d t x y)"
  let ?W = "\<lambda>w. snd (projr (getWindows_body sk g d t x y w))"
  let ?WD = "\<lambda>w. projr (getWindowsDelta_body sk g d t x y w)"
  let ?wn = "\<lambda>w. [''window'' @ str w @ ''Scores'', ''window'' @ str w @ ''Anomaly'', ''window'' @ str w @ ''Incidents'']"
  let ?wdn = "\<lambda>w. [''windowDelta'' @ str w @ ''Scores'', ''windowDelta'' @ str w @ ''Anomaly'',
      ''windowDelta'' @ str w @ ''Incidents'']"
  note v = getIF_Inr_views [OF assms]
  have B: "view_shape ?n [''baseScores'', ''Anomaly'', ''Incidents'', ''Date''] ?B"
    using getBase_shape(1) [OF not_isl_projr [OF v(1)]] .
  have D: "view_shape (?n - 1) [''deltaScores'', ''deltaAnomaly'', ''deltaIncidents''] ?D"
    using getBaseDelta_shape(1) [OF not_isl_projr [OF v(2)]] .
  have W: "view_shape (?n - isna_sum (rolling_mean (nat w) d)) (?wn w) (?W w)" if "w \<in> set ws" for w
  proof -
    from that v(3) have "\<not> isl (getWindows_body sk g d t x y w)" by (simp add: list_all_iff)
    then have "getWindows_body sk g d t x y w = Inr (fst (projr (getWindows_body sk g d t x y w)), ?W w)"
      using not_isl_projr by fastforce
    then show ?thesis by (rule getWindows_body_shape(1))
  qed
  have WD: "view_shape (?n - 1) (?wdn w) (?WD w)" if "w \<in> set ws" for w
  proof -
    from that v(4) have "\<not> isl (getWindowsDelta_body sk g d t x y w)" by (simp add: list_all_iff)
    then have "getWindowsDelta_body sk g d t x y w = Inr (?WD w)" by (rule not_isl_projr)
    then show ?thesis by (rule getWindowsDelta_body_shape)
  qed
  have wfW: "list_all (\<lambda>w. wf_frame (?W w)) ws"
    using W by (auto simp add: list_all_iff view_shape_def)
  have wfWD: "list_all (\<lambda>w. wf_frame (?WD w)) ws"
    using WD by (auto simp add: list_all_iff view_shape_def)
  let ?Mw = "foldl max 0 (map (\<lambda>w. nrows (?W w)) ws)"
  let ?Mwd = "foldl max 0 (map (\<lambda>w. nrows (?WD w)) ws)"
  let ?wc = "concat (map (\<lambda>w. columns (?W w)) ws)"
  let ?wdc = "concat (map (\<lambda>w. columns (?WD w)) ws)"
  have Mw: "?Mw \<le> ?n"
    using W by (intro foldl_max_le) (auto simp add: view_shape_def)
  have Mwd: "?Mwd \<le> ?n"
    using WD by (intro foldl_max_le) (auto simp add: view_shape_def)
  have fw: "foldl (\<lambda>a w. concat_axis1 [a, ?W w]) DataFrame ws = range_frame ?Mw (map (pad_column ?Mw) ?wc)"
    by (rule foldl_concat_axis1_DataFrame [OF wfW])
  have fwd: "foldl (\<lambda>a w. concat_axis1 [a, ?WD w]) DataFrame ws = range_frame ?Mwd (map (pad_column ?Mwd) ?wdc)"
    by (rule foldl_concat_axis1_DataFrame [OF wfWD])
  have lenW: "list_all (\<lambda>col. None \<notin> set (snd col) \<and> length (snd col) \<le> ?Mw) ?wc"
  proof -
    have "None \<notin> set (snd col) \<and> length (snd col) \<le> ?Mw" if "w \<in> set ws" "col \<in> set (columns (?W w))" for w col
    proof -
      have "nrows (?W w) \<le> ?Mw" using that(1) by (intro mem_le_foldl_max) simp
      then show ?thesis using W [OF that(1)] that(2) by (auto simp add: view_shape_def wf_frame_def list_all_iff)
    qed
    then show ?thesis by (auto simp add: list_all_iff)
  qed
  have lenWD: "list_all (\<lambda>col. None \<notin> set (snd col) \<and> length (snd col) \<le> ?Mwd) ?wdc"
  proof -
    have "None \<notin> set (snd col) \<and> length (snd col) \<le> ?Mwd" if "w \<in> set ws" "col \<in> set (columns (?WD w))" for w col
    proof -
      have "nrows (?WD w) \<le> ?Mwd" using that(1) by (intro mem_le_foldl_max) simp
      then show ?thesis using WD [OF that(1)] that(2) by (auto simp add: view_shape_def wf_frame_def list_all_iff)
    qed
    then show ?thesis by (auto simp add: list_all_iff)
  qed
  have wf1: "wf_frame (range_frame ?Mw (map (pad_column ?Mw) ?wc))"
    using lenW by (intro wf_pad_frame) (auto simp add: list_all_iff)
  have wf2: "wf_frame (range_frame ?Mwd (map (pad_column ?Mwd) ?wdc))"
    using lenWD by (intro wf_pad_frame) (auto simp add: list_all_iff)
  have wfB: "wf_frame ?B" "nrows ?B = ?n" using B by (simp_all add: view_shape_def)
  have wfD: "wf_frame ?D" "nrows ?D = ?n - 1" using D by (simp_all add: view_shape_def)
  have M: "foldl max 0 [?n, ?n - 1, ?Mw, ?Mwd] = ?n"
    using Mw Mwd by simp
  have merged: "concat_axis1 [?B, ?D, range_frame ?Mw (map (pad_column ?Mw) ?wc),
        range_frame ?Mwd (map (pad_column ?Mwd) ?wdc)]
      = range_frame ?n (map (pad_column ?n) (columns ?B) @ map (pad_column ?n) (columns ?D) @
          map (pad_column ?n) (map (pad_column ?Mw) ?wc) @ map (pad_column ?n) (map (pad_column ?Mwd) ?wdc))"
    using concat_axis1_wf [of "[?B, ?D, range_frame ?Mw (map (pad_column ?Mw) ?wc),
        range_frame ?Mwd (map (pad_column ?Mwd) ?wdc)]"] wfB wfD wf1 wf2 M
    by simp
  have p1: "map (pad_column ?n) (map (pad_column ?Mw) ?wc) = map (pad_column ?n) ?wc"
    using Mw by (simp add: pad_column_twice)
  have p2: "map (pad_column ?n) (map (pad_column ?Mwd) ?wdc) = map (pad_column ?n) ?wdc"
    using Mwd by (simp add: pad_column_twice)
  have merged': "concat_axis1 [?B, ?D, range_frame ?Mw (map (pad_column ?Mw) ?wc),
        range_frame ?Mwd (map (pad_column ?Mwd) ?wdc)]
      = range_frame ?n (map (pad_column ?n) (scored_views sk g d t ws x y time))"
    unfolding merged p1 p2 by (simp add: scored_views_def)
  have cells: "list_all (\<lambda>col. None \<notin> set (snd col) \<and> length (snd col) \<le> ?n)
      (scored_views sk g d t ws x y time)"
  proof -
    have c1: "list_all (\<lambda>col. None \<notin> set (snd col) \<and> length (snd col) \<le> ?n) ?wc"
    proof -
      have "None \<notin> set (snd col) \<and> length (snd col) \<le> ?n" if "col \<in> set ?wc" for col
      proof -
        from that lenW have "None \<notin> set (snd col) \<and> length (snd col) \<le> ?Mw"
          unfolding list_all_iff by blast
        with Mw show ?thesis by simp
      qed
      then show ?thesis unfolding list_all_iff by blast
    qed
    have c2: "list_all (\<lambda>col. None \<notin> set (snd col) \<and> length (snd col) \<le> ?n) ?wdc"
    proof -
      have "None \<notin> set (snd col) \<and> length (snd col) \<le> ?n" if "col \<in> set ?wdc" for col
      proof -
        from that lenWD have "None \<notin> set (snd col) \<and> length (snd col) \<le> ?Mwd"
          unfolding list_all_iff by blast
        with Mwd show ?thesis by simp
      qed
      then show ?thesis unfolding list_all_iff by blast
    qed
    show ?thesis
      using view_shape_cols [OF B, of ?n] view_shape_cols [OF D, of ?n] c1 c2
      by (simp add: scored_views_def)
  qed
  have eB: "columns ?B = [(''baseScores'', snd (columns ?B ! 0)), (''Anomaly'', snd (columns ?B ! 1)),
      (''Incidents'', snd (columns ?B ! 2)), (''Date'', snd (columns ?B ! 3))]"
    using B by (intro names4) (simp add: view_shape_def)
  have eD: "columns ?D = [(''deltaScores'', snd (columns ?D ! 0)), (''deltaAnomaly'', snd (columns ?D ! 1)),
      (''deltaIncidents'', snd (columns ?D ! 2))]"
    using D by (intro names3) (simp add: view_shape_def)
  have eW: "map (\<lambda>w. columns (?W w)) ws =
      map (\<lambda>w. [(''window'' @ str w @ ''Scores'', snd (columns (?W w) ! 0)),
                 (''window'' @ str w @ ''Anomaly'', snd (columns (?W w) ! 1)),
                 (''window'' @ str w @ ''Incidents'', snd (columns (?W w) ! 2))]) ws"
  proof (rule map_cong [OF refl])
    fix w assume "w \<in> set ws"
    from W [OF this] show "columns (?W w) = [(''window'' @ str w @ ''Scores'', snd (columns (?W w) ! 0)),
                 (''window'' @ str w @ ''Anomaly'', snd (columns (?W w) ! 1)),
                 (''window'' @ str w @ ''Incidents'', snd (columns (?W w) ! 2))]"
      by (intro names3) (simp add: view_shape_def)
  qed
  have eWD: "map (\<lambda>w. columns (?WD w)) ws =
      map (\<lambda>w. [(''windowDelta'' @ str w @ ''Scores'', snd (columns (?WD w) ! 0)),
                 (''windowDelta'' @ str w @ ''Anomaly'', snd (columns (?WD w) ! 1)),
                 (''windowDelta'' @ str w @ ''Incidents'', snd (columns (?WD w) ! 2))]) ws"
  proof (rule map_cong [OF refl])
    fix w assume "w \<in> set ws"
    from WD [OF this] show "columns (?WD w) = [(''windowDelta'' @ str w @ ''Scores'', snd (columns (?WD w) ! 0)),
                 (''windowDelta'' @ str w @ ''Anomaly'', snd (columns (?WD w) ! 1)),
                 (''windowDelta'' @ str w @ ''Incidents'', snd (columns (?WD w) ! 2))]"
      by (intro names3) (simp add: view_shape_def)
  qed
  have "functional (columns ?B @ columns ?D @ concat (map (\<lambda>w. columns (?W w)) ws) @ concat (map (\<lambda>w. columns (?WD w)) ws))"
    by (subst eB, subst eD, subst eW, subst eWD) (rule functional_views)
  then have fn: "functional (scored_views sk g d t ws x y time)"
    by (simp add: scored_views_def)
  show ?thesis
    unfolding v(5) fw fwd merged' by (rule realign_padded [OF cells fn])
qed

lemma getIF_Inr_shapes:
  assumes "getIF sk g (Series d) (DatetimeIndex t) (PyList ws) x y time = Inr tbl"
  shows "view_shape (length d) [''baseScores'', ''Anomaly'', ''Incidents'', ''Date'']
           (projr (getBase sk g d t x y time))"
    and "view_shape (length d - 1) [''deltaScores'', ''deltaAnomaly'', ''deltaIncidents'']
           (projr (getBaseDelta sk g d t x y))"
    and "w \<in> set ws \<Longrightarrow> view_shape (length d - isna_sum (rolling_mean (nat w) d))
           [''window'' @ str w @ ''Scores'', ''window'' @ str w @ ''Anomaly'', ''window'' @ str w @ ''Incidents'']
           (snd (projr (getWindows_body sk g d t x y w)))"
    and "w \<in> set ws \<Longrightarrow> view_shape (length d - 1)
           [''windowDelta'' @ str w @ ''Scores'', ''windowDelta'' @ str w @ ''Anomaly'',
            ''windowDelta'' @ str w @ ''Incidents'']
           (projr (getWindowsDelta_body sk g d t x y w))"
    and "length t = length d" and "time \<noteq> Some False"
    and "w \<in> set ws \<Longrightarrow> 0 \<le> w"
proof -
  note v = getIF_Inr_views [OF assms]
  show "view_shape (length d) [''baseScores'', ''Anomaly'', ''Incidents'', ''Date'']
      (projr (getBase sk g d t x y time))"
    using getBase_shape(1) [OF not_isl_projr [OF v(1)]] .
  show "length t = length d"
    using getBase_shape(2) [OF not_isl_projr [OF v(1)]] .
  show "time \<noteq> Some False"
    using getBase_shape(3) [OF not_isl_projr [OF v(1)]] .
  show "view_shape (length d - 1) [''deltaScores'', ''deltaAnomaly'', ''deltaIncidents'']
      (projr (getBaseDelta sk g d t x y))"
    using getBaseDelta_shape(1) [OF not_isl_projr [OF v(2)]] .
  {
    assume w: "w \<in> set ws"
    with v(3) have "\<not> isl (getWindows_body sk g d t x y w)" by (simp add: list_all_iff)
    then have e: "getWindows_body sk g d t x y w =
        Inr (fst (projr (getWindows_body sk g d t x y w)), snd (projr (getWindows_body sk g d t x y w)))"
      using not_isl_projr by fastforce
    show "view_shape (length d - isna_sum (rolling_mean (nat w) d))
        [''window'' @ str w @ ''Scores'', ''window'' @ str w @ ''Anomaly'', ''window'' @ str w @ ''Incidents'']
        (snd (projr (getWindows_body sk g d t x y w)))"
      using e by (rule getWindows_body_shape(1))
    show "0 \<le> w" using e by (rule getWindows_body_shape(3))
    from w v(4) have "\<not> isl (getWindowsDelta_body sk g d t x y w)" by (simp add: list_all_iff)
    then have "getWindowsDelta_body sk g d t x y w = Inr (projr (getWindowsDelta_body sk g d t x y w))"
      by (rule not_isl_projr)
    then show "view_shape (length d - 1)
        [''windowDelta'' @ str w @ ''Scores'', ''windowDelta'' @ str w @ ''Anomaly'',
         ''windowDelta'' @ str w @ ''Incidents'']
        (projr (getWindowsDelta_body sk g d t x y w))"
      by (rule getWindowsDelta_body_shape)
  }
qed

lemma scored_views_names:
  assumes "getIF sk g (Series d) (DatetimeIndex t) (PyList ws) x y time = Inr tbl"
  shows "map fst (scored_views sk g d t ws x y time) = view_names ws"
proof -
  note s = getIF_Inr_shapes [OF assms]
  have 1: "map fst (columns (projr (getBase sk g d t x y time))) = [''baseScores'', ''Anomaly'', ''Incidents'', ''Date'']"
    using s(1) by (simp add: view_shape_def)
  have 2: "map fst (columns (projr (getBaseDelta sk g d t x y))) = [''deltaScores'', ''deltaAnomaly'', ''deltaIncidents'']"
    using s(2) by (simp add: view_shape_def)
  have 3: "map (\<lambda>w. map fst (columns (snd (projr (getWindows_body sk g d t x y w))))) ws =
      map (\<lambda>w. [''window'' @ str w @ ''Scores'', ''window'' @ str w @ ''Anomaly'', ''window'' @ str w @ ''Incidents'']) ws"
    using s(3) by (intro map_cong [OF refl]) (simp add: view_shape_def)
  have 4: "map (\<lambda>w. map fst (columns (projr (getWindowsDelta_body sk g d t x y w)))) ws =
      map (\<lambda>w. [''windowDelta'' @ str w @ ''Scores'', ''windowDelta'' @ str w @ ''Anomaly'',
                 ''windowDelta'' @ str w @ ''Incidents'']) ws"
    using s(4) by (intro map_cong [OF refl]) (simp add: view_shape_def)
  show ?thesis
    unfolding scored_views_def view_names_def
    by (simp only: map_append map_concat map_map comp_def 1 2 3 4)
qed

lemma fst_align [simp]: "fst (align n col) = fst col"
  by (simp add: align_def)

lemma length_align: "length (snd col) \<le> n \<Longrightarrow> length (snd (align n col)) = n"
  by (simp add: align_def)

lemma take_align: "take (n - length (snd col)) (snd (align n col)) = replicate (n - length (snd col)) None"
  by (simp add: align_def)

lemma drop_align: "drop (n - length (snd col)) (snd (align n col)) = snd col"
  by (simp add: align_def)

lemma scored_views_cells:
  assumes "getIF sk g (Series d) (DatetimeIndex t) (PyList ws) x y time = Inr tbl"
    and "col \<in> set (scored_views sk g d t ws x y time)"
  shows "None \<notin> set (snd col)" and "length (snd col) \<le> length d"
proof -
  note s = getIF_Inr_shapes [OF assms(1)]
  from assms(2) consider
      "col \<in> set (columns (projr (getBase sk g d t x y time)))"
    | "col \<in> set (columns (projr (getBaseDelta sk g d t x y)))"
    | w where "w \<in> set ws" "col \<in> set (columns (snd (projr (getWindows_body sk g d t x y w))))"
    | w where "w \<in> set ws" "col \<in> set (columns (projr (getWindowsDelta_body sk g d t x y w)))"
    by (auto simp add: scored_views_def)
  then have "None \<notin> set (snd col) \<and> length (snd col) \<le> length d"
  proof cases
    case 1
    with view_shape_cols [OF s(1), of "length d"] show ?thesis by (simp add: list_all_iff)
  next
    case 2
    with view_shape_cols [OF s(2), of "length d"] show ?thesis by (simp add: list_all_iff)
  next
    case 3
    with view_shape_cols [OF s(3), of w "length d"] show ?thesis by (simp add: list_all_iff)
  next
    case 4
    with view_shape_cols [OF s(4), of w "length d"] show ?thesis by (simp add: list_all_iff)
  qed
  then show "None \<notin> set (snd col)" and "length (snd col) \<le> length d" by simp_all
qed

lemma getIF_Inr_table_names:
  assumes "getIF sk g (Series d) (DatetimeIndex t) (PyList ws) x y time = Inr tbl"
  shows "tbl = range_frame (length d)
     (map (\<lambda>col. (fst col,
             (fix_column ^^ count_list (view_names ws) (fst col)) (snd (pad_column (length d) col))))
        (scored_views sk g d t ws x y time))"
  using getIF_Inr_table [OF assms] unfolding scored_views_names [OF assms] .

lemma table_names:
  assumes "getIF sk g (Series d) (DatetimeIndex t) (PyList ws) x y time = Inr tbl"
  shows "map fst (columns tbl) = view_names ws"
  using getIF_Inr_table [OF assms] scored_views_names [OF assms] by (simp add: comp_def)

lemma table_lengths:
  assumes "getIF sk g (Series d) (DatetimeIndex t) (PyList ws) x y time = Inr tbl"
  shows "index tbl = map RangeLabel [0..<length d]"
    and "list_all (\<lambda>col. length (snd col) = length d) (columns tbl)"
proof -
  note tb = getIF_Inr_table [OF assms]
  show "index tbl = map RangeLabel [0..<length d]" by (subst tb) simp
  have "length (snd (pad_column (length d) col)) = length d"
    if "col \<in> set (scored_views sk g d t ws x y time)" for col
    using scored_views_cells(2) [OF assms that] by (simp add: pad_column_def)
  then show "list_all (\<lambda>col. length (snd col) = length d) (columns tbl)"
    by (subst tb) (simp add: list_all_iff)
qed

text \<open>A column whose name stands once in the table is aligned.\<close>

lemma table_column_once:
  assumes "getIF sk g (Series d) (DatetimeIndex t) (PyList ws) x y time = Inr tbl"
    and "j < length (scored_views sk g d t ws x y time)"
    and "count_list (view_names ws) (fst (scored_views sk g d t ws x y time ! j)) = 1"
  shows "columns tbl ! j = align (length d) (scored_views sk g d t ws x y time ! j)"
proof -
  let ?col = "scored_views sk g d t ws x y time ! j"
  have mem: "?col \<in> set (scored_views sk g d t ws x y time)" using assms(2) by simp
  have "columns tbl ! j =
      (fst ?col, (fix_column ^^ count_list (view_names ws) (fst ?col)) (snd (pad_column (length d) ?col)))"
    using assms(2) by (subst getIF_Inr_table_names [OF assms(1)]) simp
  also have "\<dots> = (fst ?col, (fix_column ^^ 1) (snd (pad_column (length d) ?col)))"
    unfolding assms(3) ..
  also have "\<dots> = align (length d) ?col"
    using scored_views_cells [OF assms(1) mem] by (rule fix_once_aligns)
  finally show ?thesis .
qed

lemma distinct_view_names: "distinct ws \<Longrightarrow> distinct (view_names ws)"
proof -
  assume ws: "distinct ws"
  let ?wn = "\<lambda>w. [''window'' @ str w @ ''Scores'', ''window'' @ str w @ ''Anomaly'',
      ''window'' @ str w @ ''Incidents'']"
  let ?wdn = "\<lambda>w. [''windowDelta'' @ str w @ ''Scores'', ''windowDelta'' @ str w @ ''Anomaly'',
      ''windowDelta'' @ str w @ ''Incidents'']"
  have 1: "distinct (concat (map ?wn vs))" if "distinct vs" for vs
    using that by (induction vs) (auto simp add: name_simps)
  have 2: "distinct (concat (map ?wdn vs))" if "distinct vs" for vs
    using that by (induction vs) (auto simp add: name_simps)
  have 3: "set (concat (map ?wn ws)) \<inter> set (concat (map ?wdn ws)) = {}"
    by (auto simp add: name_simps)
  show ?thesis
    unfolding view_names_def using 1 [OF ws] 2 [OF ws] 3 by (auto simp add: name_simps)
qed

lemma getIF_Inr_table_distinct:
  assumes "getIF sk g (Series d) (DatetimeIndex t) (PyList ws) x y time = Inr tbl" and "distinct ws"
  shows "tbl = range_frame (length d) (map (align (length d)) (scored_views sk g d t ws x y time))"
proof -
  have "map (\<lambda>col. (fst col,
          (fix_column ^^ count_list (view_names ws) (fst col)) (snd (pad_column (length d) col))))
        (scored_views sk g d t ws x y time) =
      map (align (length d)) (scored_views sk g d t ws x y time)"
  proof (rule map_cong [OF refl])
    fix col assume col: "col \<in> set (scored_views sk g d t ws x y time)"
    then have "fst col \<in> set (view_names ws)"
      using scored_views_names [OF assms(1)] by (metis image_eqI set_map)
    then have "count_list (view_names ws) (fst col) = 1"
      using distinct_view_names [OF assms(2)] by (intro count_list_distinct)
    then show "(fst col, (fix_column ^^ count_list (view_names ws) (fst col))
        (snd (pad_column (length d) col))) = align (length d) col"
      using fix_once_aligns [OF scored_views_cells [OF assms(1) col]] by simp
  qed
  then show ?thesis using getIF_Inr_table_names [OF assms(1)] by simp
qed

section \<open>The worked example\<close>

lemma sample_run:
  "getIF mean_scorer () (Series sample_series) (DatetimeIndex sample_stamps) (PyList [2])
     None None None = Inr sample_table"
  by code_simp

section \<open>Warm-up rows\<close>

lemma isna_sum_leading: "isna_sum (replicate k None @ map Some ys) = k"
  by (simp add: isna_sum_def filter_empty_conv comp_def)

lemma dropna_leading: "dropna (replicate k None @ map Some ys) = ys"
proof (induction k)
  case 0
  show ?case by (induction ys) (simp_all add: dropna_def List.map_filter_def)
next
  case (Suc k)
  then show ?case by (simp add: dropna_def List.map_filter_def)
qed

lemma rolling_mean_split:
  assumes "1 \<le> w" "w \<le> length d"
  shows "rolling_mean w d =
     replicate (w - 1) None @
     map (\<lambda>j. Some (rat_of_int (sum_list (take w (drop j d))) / rat_of_nat w)) [0..<length d - (w - 1)]"
proof (rule nth_equalityI)
  show "length (rolling_mean w d) =
      length (replicate (w - 1) None @
        map (\<lambda>j. Some (rat_of_int (sum_list (take w (drop j d))) / rat_of_nat w)) [0..<length d - (w - 1)])"
    using assms by simp
next
  fix i assume "i < length (rolling_mean w d)"
  then have i: "i < length d" by simp
  show "rolling_mean w d ! i =
      (replicate (w - 1) None @
        map (\<lambda>j. Some (rat_of_int (sum_list (take w (drop j d))) / rat_of_nat w)) [0..<length d - (w - 1)]) ! i"
  proof (cases "i + 1 < w")
    case True
    then have "i < w - 1" by simp
    then show ?thesis using True i assms by (simp add: rolling_mean_def nth_append)
  next
    case False
    then have "i - (w - 1) < length d - (w - 1)" "i + 1 - w = i - (w - 1)" "\<not> i < w - 1" "w \<noteq> 0"
      using i assms by simp_all
    then show ?thesis using False i by (simp add: rolling_mean_def nth_append)
  qed
qed

lemma rolling_mean_leading:
  assumes "1 \<le> w" "w \<le> length d"
  shows "isna_sum (rolling_mean w d) = w - 1"
    and "rolling_mean w d = replicate (w - 1) None @ map Some (dropna (rolling_mean w d))"
proof -
  let ?ys = "map (\<lambda>j. rat_of_int (sum_list (take w (drop j d))) / rat_of_nat w) [0..<length d - (w - 1)]"
  have e: "rolling_mean w d = replicate (w - 1) None @ map Some ?ys"
    using rolling_mean_split [OF assms] by (simp add: comp_def)
  show "isna_sum (rolling_mean w d) = w - 1"
    unfolding e by (rule isna_sum_leading)
  have "dropna (rolling_mean w d) = ?ys"
    unfolding e by (rule dropna_leading)
  with e show "rolling_mean w d = replicate (w - 1) None @ map Some (dropna (rolling_mean w d))"
    by simp
qed

lemma rolling_mean_all_missing:
  assumes "w = 0 \<or> length d < w"
  shows "rolling_mean w d = replicate (length d) None"
  using assms by (intro nth_equalityI) (auto simp add: rolling_mean_def)

lemma dropna_rolling_mean_empty:
  assumes "w = 0 \<or> length d < w"
  shows "dropna (rolling_mean w d) = []"
  using dropna_leading [of "length d" "[]"] rolling_mean_all_missing [OF assms] by simp

lemma diff_leading:
  assumes "d \<noteq> []"
  shows "diff d = replicate 1 None @ map Some (dropna (diff d))"
proof -
  obtain x rest where d: "d = x # rest" using assms by (cases d) auto
  let ?ys = "map (\<lambda>(a, b). rat_of_int (b - a)) (zip (x # rest) rest)"
  have e: "diff d = replicate 1 None @ map Some ?ys"
    using d by (simp add: diff_Cons comp_def case_prod_unfold)
  have "dropna (diff d) = ?ys" unfolding e by (rule dropna_leading)
  with e show ?thesis by simp
qed

lemma fit_random_state: "fit sk g random_state X = fit_seeded sk 42 X"
  by (simp add: fit_def random_state_def)

section \<open>The names of the merged columns\<close>

lemma count_view_names:
  "count_list (view_names ws) ''Date'' = 1" "count_list (view_names ws) ''Incidents'' = 1"
proof -
  have 1: "''Date'' \<notin> set (concat (map (\<lambda>w. [''window'' @ str w @ ''Scores'', ''window'' @ str w @ ''Anomaly'',
      ''window'' @ str w @ ''Incidents'']) ws))" by auto
  have 2: "''Date'' \<notin> set (concat (map (\<lambda>w. [''windowDelta'' @ str w @ ''Scores'',
      ''windowDelta'' @ str w @ ''Anomaly'', ''windowDelta'' @ str w @ ''Incidents'']) ws))" by auto
  have 3: "''Incidents'' \<notin> set (concat (map (\<lambda>w. [''window'' @ str w @ ''Scores'', ''window'' @ str w @ ''Anomaly'',
      ''window'' @ str w @ ''Incidents'']) ws))" by auto
  have 4: "''Incidents'' \<notin> set (concat (map (\<lambda>w. [''windowDelta'' @ str w @ ''Scores'',
      ''windowDelta'' @ str w @ ''Anomaly'', ''windowDelta'' @ str w @ ''Incidents'']) ws))" by auto
  show "count_list (view_names ws) ''Date'' = 1"
    using 1 2 by (simp add: view_names_def count_list_append count_list_0_iff)
  show "count_list (view_names ws) ''Incidents'' = 1"
    using 3 4 by (simp add: view_names_def count_list_append count_list_0_iff)
qed

lemma count_raw_names:
  assumes "c \<in> set [''baseScores'', ''Anomaly'', ''Incidents'', ''Date'']"
  shows "count_list (view_names ws) c = 1"
proof -
  have 1: "c \<notin> set (concat (map (\<lambda>w. [''window'' @ str w @ ''Scores'', ''window'' @ str w @ ''Anomaly'',
      ''window'' @ str w @ ''Incidents'']) ws))" using assms by auto
  have 2: "c \<notin> set (concat (map (\<lambda>w. [''windowDelta'' @ str w @ ''Scores'',
      ''windowDelta'' @ str w @ ''Anomaly'', ''windowDelta'' @ str w @ ''Incidents'']) ws))"
    using assms by auto
  show ?thesis
    using assms 1 2 by (auto simp add: view_names_def count_list_append count_list_0_iff)
qed

lemma view_shape_names: "view_shape m names df \<Longrightarrow> fst ` set (columns df) = set names"
  by (metis view_shape_def set_map)

section \<open>The time stamps and the row index\<close>

lemma getBase_Inr_columns:
  assumes "getBase sk g d t xx yy time = Inr df"
  shows "length (columns df) = 4"
    and "columns df ! 2 = (''Incidents'', map (\<lambda>v. Some (Integer v)) d)"
    and "columns df ! 3 =
       (''Date'', if time = None then map (\<lambda>s. Some (Day (s div ns_per_day))) t
                  else map (\<lambda>s. Some (Datetime s)) t)"
  using assms by (auto simp add: getBase_eq split: sum.splits if_splits)

lemma align_full: "length (snd col) = n \<Longrightarrow> align n col = col"
  by (simp add: align_def)

lemma raw_columns_in_table:
  assumes "getIF sk g (Series d) (DatetimeIndex t) (PyList ws) x y time = Inr tbl" and "j < 4"
  shows "columns tbl ! j = columns (projr (getBase sk g d t x y time)) ! j"
proof -
  note v = getIF_Inr_views [OF assms(1)]
  note s = getIF_Inr_shapes [OF assms(1)]
  let ?B = "projr (getBase sk g d t x y time)"
  have len: "length (columns ?B) = 4"
    using getBase_Inr_columns(1) [OF not_isl_projr [OF v(1)]] .
  then have mem: "columns ?B ! j \<in> set (columns ?B)" using assms(2) by simp
  have n: "length (snd (columns ?B ! j)) = length d"
    using s(1) mem by (simp add: view_shape_def wf_frame_def list_all_iff)
  have names: "map fst (columns ?B) = [''baseScores'', ''Anomaly'', ''Incidents'', ''Date'']"
    using s(1) by (simp add: view_shape_def)
  have "fst (columns ?B ! j) = map fst (columns ?B) ! j" using len assms(2) by simp
  also have "\<dots> \<in> set [''baseScores'', ''Anomaly'', ''Incidents'', ''Date'']"
    unfolding names using assms(2) by (intro nth_mem) simp
  finally have once: "count_list (view_names ws) (fst (columns ?B ! j)) = 1"
    by (rule count_raw_names)
  have e: "scored_views sk g d t ws x y time ! j = columns ?B ! j"
    using len assms(2) by (simp add: scored_views_def nth_append)
  have lt: "j < length (scored_views sk g d t ws x y time)"
    using len assms(2) by (simp add: scored_views_def)
  have "columns tbl ! j = align (length d) (columns ?B ! j)"
    using table_column_once [OF assms(1) lt] once unfolding e by simp
  then show ?thesis using n by (simp add: align_full)
qed
section \<open>Determinism\<close>

lemma getBase_indep: "getBase sk g d t xx yy time = getBase sk g' d t xx yy time"
  by (simp add: getBase_def fit_random_state)

lemma getBaseDelta_indep: "getBaseDelta sk g d t xx yy = getBaseDelta sk g' d t xx yy"
  by (simp add: getBaseDelta_def fit_random_state)

lemma getWindows_body_indep: "getWindows_body sk g d t xx yy w = getWindows_body sk g' d t xx yy w"
  by (simp add: getWindows_body_def fit_random_state)

lemma getWindowsDelta_body_indep:
  "getWindowsDelta_body sk g d t xx yy w = getWindowsDelta_body sk g' d t xx yy w"
  by (simp add: getWindowsDelta_body_def fit_random_state)

lemma getWindows_loop_indep:
  "getWindows_loop sk g d t xx yy ws acc = getWindows_loop sk g' d t xx yy ws acc"
proof (induction ws arbitrary: acc)
  case Nil
  show ?case by simp
next
  case (Cons w ws)
  obtain r0 f0 where acc: "acc = (r0, f0)" by (cases acc)
  show ?case
    unfolding acc getWindows_loop.simps getWindows_body_indep [of sk g d t xx yy w g']
    by (simp add: Cons.IH split: sum.splits prod.splits)
qed

lemma getWindowsDelta_loop_indep:
  "getWindowsDelta_loop sk g d t xx yy ps f0 = getWindowsDelta_loop sk g' d t xx yy ps f0"
proof (induction ps arbitrary: f0)
  case Nil
  show ?case by simp
next
  case (Cons p ps)
  obtain w c where p: "p = (w, c)" by (cases p)
  show ?case
    unfolding p getWindowsDelta_loop.simps getWindowsDelta_body_indep [of sk g d t xx yy w g']
    by (simp add: Cons.IH split: sum.splits)
qed

section \<open>The time flag\<close>

lemma getIF_time_False:
  "getIF sk g (Series d) (DatetimeIndex t) (PyList ws) x y (Some False) =
     (case fit sk g random_state (map (\<lambda>v. [rat_of_int v]) d) of
        Inl e \<Rightarrow> Inl e
      | Inr clf \<Rightarrow> Inl (KeyError ''Date''))"
  by (simp add: getIF_def getBase_eq split: sum.splits)

section \<open>Runs that return\<close>

text \<open>
  A run returns a table when the scorer accepts every matrix that has a row, the time
  stamps are as many as the series has entries, \<^verbatim>\<open>time\<close> is \<open>None\<close> or \<open>True\<close>, the
  series has two entries or more, and every window is between 1 and the length of the
  series.
\<close>

lemma dropna_rolling_mean_not_empty:
  assumes "1 \<le> w" "w \<le> length d"
  shows "dropna (rolling_mean w d) \<noteq> []"
proof -
  have "length (dropna (rolling_mean w d)) = length d - (w - 1)"
    using rolling_mean_leading(1) [OF assms] by (simp add: length_dropna)
  then show ?thesis using assms by auto
qed

lemma getIF_returns:
  assumes ok: "\<And>seed X. X \<noteq> [] \<Longrightarrow> \<not> isl (fit_seeded sk seed X)"
    and len: "length t = length d"
    and time: "time \<noteq> Some False"
    and two: "2 \<le> length d"
    and ws: "\<forall>w\<in>set ws. 1 \<le> w \<and> w \<le> int (length d)"
  shows "\<not> isl (getIF sk g (Series d) (DatetimeIndex t) (PyList ws) x y time)"
proof -
  have fit_ok: "\<not> isl (fit sk g random_state X)" if "X \<noteq> []" for X
    using ok [OF that] by (simp add: fit_random_state)
  have d: "d \<noteq> []" using two by auto
  have b: "\<not> isl (getBase sk g d t x y time)"
    using fit_ok [of "map (\<lambda>v. [rat_of_int v]) d"] d len time
    by (cases "fit sk g random_state (map (\<lambda>v. [rat_of_int v]) d)") (simp_all add: getBase_eq)
  have dr: "delta_rows d \<noteq> []" using two by (simp add: delta_rows_Nil_iff)
  have dl: "\<not> isl (getBaseDelta sk g d t x y)"
    using fit_ok [OF dr] len
    by (cases "fit sk g random_state (delta_rows d)") (simp_all add: getBaseDelta_eq)
  have wd: "\<not> isl (getWindowsDelta_body sk g d t x y w)" for w
    using fit_ok [OF dr] len
    by (cases "fit sk g random_state (delta_rows d)") (simp_all add: getWindowsDelta_body_eq)
  have w: "\<not> isl (getWindows_body sk g d t x y w)" if "w \<in> set ws" for w
  proof -
    from that ws have b: "1 \<le> nat w" "nat w \<le> length d" "\<not> w < 0" by auto
    have "map (\<lambda>v. [v]) (dropna (rolling_mean (nat w) d)) \<noteq> []"
      using dropna_rolling_mean_not_empty [OF b(1,2)] by simp
    from fit_ok [OF this] show ?thesis
      using b(3) len
      by (cases "fit sk g random_state (map (\<lambda>v. [v]) (dropna (rolling_mean (nat w) d)))")
        (simp_all add: getWindows_body_eq)
  qed
  then have wl: "list_all (\<lambda>w. \<not> isl (getWindows_body sk g d t x y w)) ws"
    by (simp add: list_all_iff)
  note gw = getWindows_loop_ok [OF wl, of "[]" DataFrame]
  let ?rc = "map (\<lambda>w. fst (projr (getWindows_body sk g d t x y w))) ws"
  have z: "map fst (zip ws ?rc) = ws" by simp
  have "list_all (\<lambda>w. \<not> isl (getWindowsDelta_body sk g d t x y w)) (map fst (zip ws ?rc))"
    unfolding z using wd by (simp add: list_all_iff)
  note gwd = getWindowsDelta_loop_ok [OF this, of DataFrame]
  show ?thesis
    using b dl gw gwd
    by (cases "getBase sk g d t x y time"; cases "getBaseDelta sk g d t x y")
      (simp_all add: getIF_def getWindows_def getWindowsDelta_def)
qed

section \<open>Window lists without repetition\<close>

text \<open>
  When no window size stands twice in the window list, every name stands once in the
  table, and the table is the aligner's: its columns are the columns of the scored views
  (\<open>scored_views\<close>: the frames the four view functions return), each one aligned on its
  own. A view column of \<open>m\<close> defined rows becomes a column of \<open>n\<close> rows whose first
  \<open>n - m\<close> entries are missing and whose entries from \<open>n - m\<close> on are the view's rows
  in their order; \<open>align\<close> reads nothing but the column it aligns and the length of the
  series.
\<close>

lemma merged_columns_aligned:
  assumes "getIF sk g (Series d) (DatetimeIndex t) (PyList ws) x y time = Inr tbl"
    and "distinct ws"
  shows "columns tbl = map (align (length d)) (scored_views sk g d t ws x y time) \<and>
     (\<forall>col \<in> set (scored_views sk g d t ws x y time).
        None \<notin> set (snd col) \<and>
        length (snd col) \<le> length d \<and>
        length (snd (align (length d) col)) = length d \<and>
        take (length d - length (snd col)) (snd (align (length d) col)) =
          replicate (length d - length (snd col)) None \<and>
        drop (length d - length (snd col)) (snd (align (length d) col)) = snd col)"
proof (intro conjI ballI)
  show "columns tbl = map (align (length d)) (scored_views sk g d t ws x y time)"
    using getIF_Inr_table_distinct [OF assms] by simp
next
  fix col assume col: "col \<in> set (scored_views sk g d t ws x y time)"
  show "None \<notin> set (snd col)" using scored_views_cells(1) [OF assms(1) col] .
  show "length (snd col) \<le> length d" using scored_views_cells(2) [OF assms(1) col] .
  then show "length (snd (align (length d) col)) = length d" by (rule length_align)
  show "take (length d - length (snd col)) (snd (align (length d) col)) =
      replicate (length d - length (snd col)) None" by (rule take_align)
  show "drop (length d - length (snd col)) (snd (align (length d) col)) = snd col" by (rule drop_align)
qed

lemma merged_columns_aligned_example:
  "columns sample_table =
     map (align (length sample_series))
       (scored_views mean_scorer () sample_series sample_stamps [2] None None None)"
  using merged_columns_aligned [OF sample_run] by simp

section \<open>The claims\<close>

text \<open>
  C4. For every window size, one pass of \<^verbatim>\<open>getWindowsDelta\<close> returns what
  \<^verbatim>\<open>getBaseDelta\<close> returns, with the three columns renamed after the window size:
  the same failures, the same row count, the same scores, labels and differences. The
  second conjunct gives the Delta view in closed form: the scorer is fitted on
  \<open>delta_rows\<close> (first difference and raw value, without the first row), and the
  frame has one row less than the series.
\<close>

theorem windowDelta_is_delta_renamed:
  "getWindowsDelta_body sk g dataCol timeCol xx yy val =
     bindE (getBaseDelta sk g dataCol timeCol xx yy)
       (set_columns [''windowDelta'' @ str val @ ''Scores'', ''windowDelta'' @ str val @ ''Anomaly'',
                     ''windowDelta'' @ str val @ ''Incidents''])
   \<and> getBaseDelta sk g dataCol timeCol xx yy =
     (case fit sk g random_state (delta_rows dataCol) of
        Inl e \<Rightarrow> Inl e
      | Inr clf \<Rightarrow>
          if length timeCol \<noteq> length dataCol
          then Inl (ValueError (if length dataCol \<le> 1 then ''x and y must have same first dimension''
                                else ''Length of values does not match length of index''))
          else Inr (range_frame (length dataCol - 1)
                 [(''deltaScores'', decision_function sk clf (delta_rows dataCol)),
                  (''deltaAnomaly'', predict sk clf (delta_rows dataCol)),
                  (''deltaIncidents'',
                     map (\<lambda>(a, b). Some (Float (rat_of_int (b - a)))) (zip dataCol (tl dataCol)))]))"
  by (rule conjI) (rule getWindowsDelta_body_refines, rule getBaseDelta_eq)

theorem windowDelta_is_delta_renamed_witness:
  "getWindowsDelta_body mean_scorer () [10, 10, 10, 50, 10, 10] [0, 1, 2, 3, 4, 5] None None 2 =
     Inr (range_frame 5
       [(''windowDelta2Scores'',
           [Some (Float 0), Some (Float 0), Some (Float (- 40)), Some (Float (- 40)), Some (Float 0)]),
        (''windowDelta2Anomaly'',
           [Some (Integer 1), Some (Integer 1), Some (Integer (- 1)), Some (Integer (- 1)),
            Some (Integer 1)]),
        (''windowDelta2Incidents'',
           [Some (Float 0), Some (Float 0), Some (Float 40), Some (Float (- 40)), Some (Float 0)])])"
  using conjunct1 [OF windowDelta_is_delta_renamed, of mean_scorer "()" "[10, 10, 10, 50, 10, 10]"
      "[0, 1, 2, 3, 4, 5]" None None 2]
  by (simp add: getBaseDelta_eq fit_def random_state_def mean_scorer_def delta_rows_def
       decision_function_def predict_def set_columns_range_frame str_2 eval_nat_numeral)

text \<open>
  C1. The source realigns by column name, and the names of two Window (or
  WindowDelta) views of one window size are the same. On the worked example with the
  window list \<open>[2, 2]\<close>, the score column of the first Window view (the eighth column
  of the table) has been moved down twice: its first two entries are missing although the
  view lost one row, entry \<open>1 + i\<close> is not row \<open>i\<close> of the view, and the last row
  of the view is gone.
\<close>

theorem repeated_window_realigned_twice:
  "snd (columns (snd (projr (getWindows_body mean_scorer () sample_series sample_stamps None None 2))) ! 0) =
     [Some (Float (- 8)), Some (Float (- 8)), Some (Float (- 12)), Some (Float (- 12)),
      Some (Float (- 8))] \<and>
   columns (projr (getIF mean_scorer () (Series sample_series) (DatetimeIndex sample_stamps)
     (PyList [2, 2]) None None None)) ! 7 =
     (''window2Scores'',
      [None, None, Some (Float (- 8)), Some (Float (- 8)), Some (Float (- 12)), Some (Float (- 12))])"
  by code_simp

text \<open>
  C2. The table \<^verbatim>\<open>getIF\<close> returns has one row per entry of the series and the
  columns of \<open>2 + 2 * length ws\<close> views, in the order Raw, Delta, the Window views, the
  WindowDelta views: the four columns of Raw, the three of Delta, and three for every
  Window and every WindowDelta view; with an empty window list, the seven columns of Raw
  and Delta.
\<close>

theorem result_table_shape:
  assumes "getIF sk g (Series d) (DatetimeIndex t) (PyList ws) x y time = Inr tbl"
  shows "index tbl = map RangeLabel [0..<length d] \<and>
     list_all (\<lambda>col. length (snd col) = length d) (columns tbl) \<and>
     map fst (columns tbl) = view_names ws \<and>
     length (columns tbl) = 4 + 3 + 3 * length ws + 3 * length ws"
proof (intro conjI)
  show "index tbl = map RangeLabel [0..<length d]" by (rule table_lengths(1) [OF assms])
  show "list_all (\<lambda>col. length (snd col) = length d) (columns tbl)"
    by (rule table_lengths(2) [OF assms])
  show n: "map fst (columns tbl) = view_names ws" by (rule table_names [OF assms])
  have "length (view_names ws) = 4 + 3 + 3 * length ws + 3 * length ws"
    by (simp add: view_names_def length_concat comp_def sum_list_triv)
  with n show "length (columns tbl) = 4 + 3 + 3 * length ws + 3 * length ws"
    by (metis length_map)
qed

theorem result_table_shape_witness:
  "getIF mean_scorer () (Series sample_series) (DatetimeIndex sample_stamps) (PyList [2])
     None None None = Inr sample_table \<and>
   index sample_table = map RangeLabel [0..<length sample_series] \<and>
   map fst (columns sample_table) =
     [''baseScores'', ''Anomaly'', ''Incidents'', ''Date'', ''deltaScores'', ''deltaAnomaly'',
      ''deltaIncidents'', ''window2Scores'', ''window2Anomaly'', ''window2Incidents'',
      ''windowDelta2Scores'', ''windowDelta2Anomaly'', ''windowDelta2Incidents''] \<and>
   length (columns sample_table) = 13"
  using result_table_shape [OF sample_run] sample_run
  by (simp add: view_names_def str_2)

text \<open>
  C3. On a run that returns, over a non-empty series and windows between 1 and the
  length of the series: the Raw view keeps every row (warm-up 0); the Delta view and
  every WindowDelta view lose one row, the first, where the difference is missing; the
  Window view of \<open>w\<close> loses \<open>w - 1\<close> rows, the leading ones, where the rolling mean
  is missing. The missing entries of the difference and of the rolling mean are exactly
  those leading entries, and their number is what the source counts as \<^verbatim>\<open>dropped\<close>.
\<close>

theorem view_warmups:
  assumes "getIF sk g (Series d) (DatetimeIndex t) (PyList ws) x y time = Inr tbl"
    and "d \<noteq> []"
    and "\<forall>w\<in>set ws. 1 \<le> w \<and> w \<le> int (length d)"
  shows "nrows (projr (getBase sk g d t x y time)) = length d - 0 \<and>
     nrows (projr (getBaseDelta sk g d t x y)) = length d - 1 \<and>
     isna_sum (diff d) = 1 \<and>
     diff d = replicate 1 None @ map Some (dropna (diff d)) \<and>
     (\<forall>w\<in>set ws.
        nrows (snd (projr (getWindows_body sk g d t x y w))) = length d - nat (w - 1) \<and>
        isna_sum (rolling_mean (nat w) d) = nat (w - 1) \<and>
        rolling_mean (nat w) d =
          replicate (nat (w - 1)) None @ map Some (dropna (rolling_mean (nat w) d)) \<and>
        nrows (projr (getWindowsDelta_body sk g d t x y w)) = length d - 1)"
proof (intro conjI ballI)
  note s = getIF_Inr_shapes [OF assms(1)]
  show "nrows (projr (getBase sk g d t x y time)) = length d - 0"
    using s(1) by (simp add: view_shape_def)
  show "nrows (projr (getBaseDelta sk g d t x y)) = length d - 1"
    using s(2) by (simp add: view_shape_def)
  show "isna_sum (diff d) = 1" using assms(2) by (simp add: isna_sum_diff)
  show "diff d = replicate 1 None @ map Some (dropna (diff d))"
    using assms(2) by (rule diff_leading)
  fix w assume w: "w \<in> set ws"
  with assms(3) have b: "1 \<le> nat w" "nat w \<le> length d" by auto
  have k: "nat w - 1 = nat (w - 1)" by simp
  show i: "isna_sum (rolling_mean (nat w) d) = nat (w - 1)"
    using rolling_mean_leading(1) [OF b] k by simp
  show "nrows (snd (projr (getWindows_body sk g d t x y w))) = length d - nat (w - 1)"
    using s(3) [OF w] i by (simp add: view_shape_def)
  show "rolling_mean (nat w) d = replicate (nat (w - 1)) None @ map Some (dropna (rolling_mean (nat w) d))"
    using rolling_mean_leading(2) [OF b] k by simp
  show "nrows (projr (getWindowsDelta_body sk g d t x y w)) = length d - 1"
    using s(4) [OF w] by (simp add: view_shape_def)
qed

theorem view_warmups_witness:
  "sample_series \<noteq> [] \<and> (1::int) \<le> 2 \<and> 2 \<le> int (length sample_series) \<and>
   getIF mean_scorer () (Series sample_series) (DatetimeIndex sample_stamps) (PyList [2])
     None None None = Inr sample_table \<and>
   nrows (projr (getBase mean_scorer () sample_series sample_stamps None None None)) = 6 \<and>
   nrows (projr (getBaseDelta mean_scorer () sample_series sample_stamps None None)) = 5 \<and>
   nrows (snd (projr (getWindows_body mean_scorer () sample_series sample_stamps None None 2))) = 5 \<and>
   nrows (projr (getWindowsDelta_body mean_scorer () sample_series sample_stamps None None 2)) = 5 \<and>
   isna_sum (rolling_mean 2 sample_series) = 1"
proof -
  have d: "sample_series \<noteq> []" by (simp add: sample_series_def)
  have w: "\<forall>w\<in>set [2]. 1 \<le> w \<and> w \<le> int (length sample_series)" by (simp add: sample_series_def)
  have n: "length sample_series = 6" by (simp add: sample_series_def)
  from view_warmups [OF sample_run d w] show ?thesis
    using d sample_run by (simp add: n)
qed

text \<open>
  C5, as the code has it. The source checks no length. When a requested window is
  longer than the series, or the series has fewer than two entries, a view's feature
  matrix has no rows; with a scorer that rejects a matrix without rows the run fails and
  returns no table. The error is the scorer's own (or an earlier one), and names no
  window.
\<close>

theorem empty_matrix_fails:
  assumes "\<And>seed. isl (fit_seeded sk seed [])"
    and "(\<exists>w\<in>set ws. int (length d) < w) \<or> length d < 2"
  shows "isl (getIF sk g (Series d) (DatetimeIndex t) (PyList ws) x y time)"
proof (rule ccontr)
  assume "\<not> isl (getIF sk g (Series d) (DatetimeIndex t) (PyList ws) x y time)"
  then obtain tbl where run: "getIF sk g (Series d) (DatetimeIndex t) (PyList ws) x y time = Inr tbl"
    using not_isl_projr by blast
  note v = getIF_Inr_views [OF run]
  have empty: "isl (fit sk g random_state [])"
    using assms(1) by (simp add: fit_random_state)
  from assms(2) show False
  proof
    assume "\<exists>w\<in>set ws. int (length d) < w"
    then obtain w where w: "w \<in> set ws" "int (length d) < w" by blast
    then have "dropna (rolling_mean (nat w) d) = []"
      by (intro dropna_rolling_mean_empty) simp
    then have "isl (getWindows_body sk g d t x y w)"
      using empty by (cases "fit sk g random_state []") (simp_all add: getWindows_body_eq)
    with v(3) w(1) show False by (simp add: list_all_iff)
  next
    assume "length d < 2"
    then have "delta_rows d = []" by (intro delta_rows_short) simp
    then have "isl (getBaseDelta sk g d t x y)"
      using empty by (cases "fit sk g random_state []") (simp_all add: getBaseDelta_eq)
    with v(2) show False by simp
  qed
qed

theorem empty_matrix_fails_witness:
  "(\<forall>seed. isl (fit_seeded mean_scorer seed [])) \<and> int (length [10, 20 :: int]) < 3 \<and>
   isl (getIF mean_scorer () (Series [10, 20]) (DatetimeIndex [0, 86400000000000]) (PyList [3])
          None None None)"
proof -
  have s: "\<And>seed. isl (fit_seeded mean_scorer seed [])" by (simp add: mean_scorer_def)
  have w: "(\<exists>w\<in>set [3]. int (length [10, 20 :: int]) < w) \<or> length [10, 20 :: int] < 2" by simp
  from empty_matrix_fails [OF s w] show ?thesis using s by simp
qed

text \<open>
  C5 as stated fails: a window as long as the series leaves one row, which
  \<open>mean_scorer\<close> accepts, and the run returns a table; and for a longer window the error
  is the scorer's.
\<close>

theorem insufficient_length_counterexample:
  "getIF mean_scorer () (Series [10, 20]) (DatetimeIndex [0, 86400000000000]) (PyList [2])
     None None None =
     Inr \<lparr>index = [RangeLabel 0, RangeLabel 1],
          columns =
            [(''baseScores'', [Some (Float (- 5)), Some (Float (- 5))]),
             (''Anomaly'', [Some (Integer 1), Some (Integer 1)]),
             (''Incidents'', [Some (Integer 10), Some (Integer 20)]),
             (''Date'', [Some (Day 0), Some (Day 1)]),
             (''deltaScores'', [None, Some (Float 0)]),
             (''deltaAnomaly'', [None, Some (Integer 1)]),
             (''deltaIncidents'', [None, Some (Float 10)]),
             (''window2Scores'', [None, Some (Float 0)]),
             (''window2Anomaly'', [None, Some (Integer 1)]),
             (''window2Incidents'', [None, Some (Float 15)]),
             (''windowDelta2Scores'', [None, Some (Float 0)]),
             (''windowDelta2Anomaly'', [None, Some (Integer 1)]),
             (''windowDelta2Incidents'', [None, Some (Float 10)])]\<rparr> \<and>
   getIF mean_scorer () (Series [10, 20]) (DatetimeIndex [0, 86400000000000]) (PyList [3])
     None None None = Inl (ValueError ''Found array with 0 sample(s)'')"
  by code_simp

text \<open>
  C6, as the code has it. The row index of the returned table is the integer range
  \<open>0, ..., n - 1\<close>: every view frame is built from arrays and gets a \<^verbatim>\<open>RangeIndex\<close>,
  and the merge takes the union of those. The time stamps of the caller are the values of
  the \<^verbatim>\<open>Date\<close> column of the Raw view, the fourth column of the table: calendar days
  when \<^verbatim>\<open>time\<close> is \<open>None\<close>, the stamps themselves otherwise; they are as many as the
  series has entries.
\<close>

theorem table_index_is_range:
  assumes "getIF sk g (Series d) (DatetimeIndex t) (PyList ws) x y time = Inr tbl"
  shows "index tbl = map RangeLabel [0..<length d] \<and>
     columns tbl ! 3 =
       (''Date'', if time = None then map (\<lambda>s. Some (Day (s div ns_per_day))) t
                  else map (\<lambda>s. Some (Datetime s)) t) \<and>
     length t = length d"
proof (intro conjI)
  show "index tbl = map RangeLabel [0..<length d]"
    by (rule table_lengths(1) [OF assms])
  note v = getIF_Inr_views [OF assms]
  show "columns tbl ! 3 =
       (''Date'', if time = None then map (\<lambda>s. Some (Day (s div ns_per_day))) t
                  else map (\<lambda>s. Some (Datetime s)) t)"
    using raw_columns_in_table [OF assms, of 3]
      getBase_Inr_columns(3) [OF not_isl_projr [OF v(1)]] by simp
  show "length t = length d" using getIF_Inr_shapes(5) [OF assms] .
qed

theorem table_index_is_range_witness:
  "getIF mean_scorer () (Series sample_series) (DatetimeIndex sample_stamps) (PyList [2])
     None None None = Inr sample_table \<and>
   index sample_table = map RangeLabel [0..<length sample_series] \<and>
   columns sample_table ! 3 = (''Date'', map (\<lambda>s. Some (Day (s div ns_per_day))) sample_stamps)"
  using table_index_is_range [OF sample_run] sample_run by simp

text \<open>
  C6 as stated fails on the worked example: the index of the table is the six positions,
  not the six time stamps.
\<close>

theorem timestamp_index_counterexample:
  "index (projr (getIF mean_scorer () (Series sample_series) (DatetimeIndex sample_stamps) (PyList [2])
     None None None)) =
     [RangeLabel 0, RangeLabel 1, RangeLabel 2, RangeLabel 3, RangeLabel 4, RangeLabel 5] \<and>
   index (projr (getIF mean_scorer () (Series sample_series) (DatetimeIndex sample_stamps) (PyList [2])
     None None None)) \<noteq> map TimeLabel sample_stamps"
  unfolding sample_run sum.sel by (simp add: sample_table_def sample_stamps_def)

text \<open>
  C7, as the code has it. \<^verbatim>\<open>getIF\<close> asserts the classes of its three arguments, in
  this order, and raises the AssertionError of the first that fails before anything else
  is computed: \<^verbatim>\<open>dataCol\<close> a pandas Series, \<^verbatim>\<open>timeCol\<close> a DatetimeIndex,
  \<^verbatim>\<open>windowList\<close> a list.
\<close>

theorem getIF_asserts_classes:
  "(\<not> is_Series dataCol \<longrightarrow>
      getIF sk g dataCol timeCol windowList x y time =
        Inl (AssertionError ''dataCol should be a pandas series'')) \<and>
   (is_Series dataCol \<and> \<not> is_DatetimeIndex timeCol \<longrightarrow>
      getIF sk g dataCol timeCol windowList x y time =
        Inl (AssertionError ''timeCol should be a pandas DatetimeIndex'')) \<and>
   (is_Series dataCol \<and> is_DatetimeIndex timeCol \<and> \<not> is_list windowList \<longrightarrow>
      getIF sk g dataCol timeCol windowList x y time =
        Inl (AssertionError ''windowList should be a list''))"
  by (simp add: getIF_def)

theorem getIF_asserts_classes_witness:
  "getIF mean_scorer () (NdArray sample_series) (DatetimeIndex sample_stamps) (PyList [2]) None None None =
     Inl (AssertionError ''dataCol should be a pandas series'') \<and>
   getIF mean_scorer () (Series sample_series) (PyList sample_stamps) (PyList [2]) None None None =
     Inl (AssertionError ''timeCol should be a pandas DatetimeIndex'') \<and>
   getIF mean_scorer () (Series sample_series) (DatetimeIndex sample_stamps) (NdArray [2]) None None None =
     Inl (AssertionError ''windowList should be a list'')"
  using getIF_asserts_classes [where dataCol = "NdArray sample_series" and sk = mean_scorer
      and g = "()" and timeCol = "DatetimeIndex sample_stamps" and windowList = "PyList [2]"
      and x = None and y = None and time = None]
    getIF_asserts_classes [where dataCol = "Series sample_series" and sk = mean_scorer
      and g = "()" and timeCol = "PyList sample_stamps" and windowList = "PyList [2]"
      and x = None and y = None and time = None]
    getIF_asserts_classes [where dataCol = "Series sample_series" and sk = mean_scorer
      and g = "()" and timeCol = "DatetimeIndex sample_stamps" and windowList = "NdArray [2]"
      and x = None and y = None and time = None]
  by simp

text \<open>
  C7 as stated fails: time stamps fewer than the series, and a negative window, pass the
  assertions. The first run fails inside \<^verbatim>\<open>getBase\<close>, after the scorer was fitted, with
  the ValueError of the column assignment; the second fails inside \<^verbatim>\<open>getWindows\<close> with
  the ValueError of \<^verbatim>\<open>rolling\<close>, after \<^verbatim>\<open>getBase\<close> has built (and drawn) the Raw view.
\<close>

theorem validation_counterexample:
  "getIF mean_scorer () (Series [10, 20, 60]) (DatetimeIndex [0, 86400000000000]) (PyList [2])
     None None None = Inl (ValueError ''Length of values does not match length of index'') \<and>
   getIF mean_scorer () (Series [10, 20, 60]) (DatetimeIndex [0, 86400000000000, 172800000000000])
     (PyList [- 1]) None None None = Inl (ValueError ''window must be an integer 0 or greater'') \<and>
   getBase mean_scorer () [10, 20, 60] [0, 86400000000000, 172800000000000] None None None =
     Inr \<lparr>index = [RangeLabel 0, RangeLabel 1, RangeLabel 2],
          columns =
            [(''baseScores'', [Some (Float (- 20)), Some (Float (- 10)), Some (Float (- 30))]),
             (''Anomaly'', [Some (Integer (- 1)), Some (Integer 1), Some (Integer (- 1))]),
             (''Incidents'', [Some (Integer 10), Some (Integer 20), Some (Integer 60)]),
             (''Date'', [Some (Day 0), Some (Day 1), Some (Day 2)])]\<rparr>"
  by code_simp

text \<open>
  C8. The table \<^verbatim>\<open>getIF\<close> computes does not depend on the state of the process-wide
  random generator: every view fits its scorer with \<^verbatim>\<open>random_state=42\<close>, and a seeded
  fit does not read that state. A run is therefore a function of the series, the time
  stamps, the window list and the flags alone. The witness uses a scorer whose unseeded
  fit does differ with the generator.
\<close>

theorem getIF_deterministic:
  "getIF sk g dataCol timeCol windowList x y time = getIF sk g' dataCol timeCol windowList x y time"
  unfolding getIF_def getWindows_def getWindowsDelta_def
    getBase_indep [of sk g _ _ _ _ _ g'] getBaseDelta_indep [of sk g _ _ _ _ g']
    getWindows_loop_indep [of sk g _ _ _ _ _ _ g'] getWindowsDelta_loop_indep [of sk g _ _ _ _ _ _ g']
  by (rule refl)

theorem getIF_deterministic_witness:
  "getIF drifting_scorer 0 (Series sample_series) (DatetimeIndex sample_stamps) (PyList [2]) None None None =
   getIF drifting_scorer 1 (Series sample_series) (DatetimeIndex sample_stamps) (PyList [2]) None None None \<and>
   fit drifting_scorer 0 None [] \<noteq> fit drifting_scorer 1 None []"
  using getIF_deterministic [of drifting_scorer 0 "Series sample_series" "DatetimeIndex sample_stamps"
      "PyList [2]" None None None 1]
  by (simp add: fit_def drifting_scorer_def)

text \<open>
  C9. In every table \<^verbatim>\<open>getIF\<close> returns there is exactly one column named
  \<^verbatim>\<open>Date\<close> and exactly one named \<^verbatim>\<open>Incidents\<close>, whatever the window list; they are
  the fourth and the third column, taken unchanged from the Raw view. The frames that
  \<^verbatim>\<open>getBaseDelta\<close> and the passes of \<^verbatim>\<open>getWindows\<close> and \<^verbatim>\<open>getWindowsDelta\<close>
  return carry neither name.
\<close>

theorem one_date_one_incidents:
  assumes "getIF sk g (Series d) (DatetimeIndex t) (PyList ws) x y time = Inr tbl"
  shows "count_list (map fst (columns tbl)) ''Date'' = 1 \<and>
     count_list (map fst (columns tbl)) ''Incidents'' = 1 \<and>
     columns tbl ! 2 = columns (projr (getBase sk g d t x y time)) ! 2 \<and>
     fst (columns tbl ! 2) = ''Incidents'' \<and>
     columns tbl ! 3 = columns (projr (getBase sk g d t x y time)) ! 3 \<and>
     fst (columns tbl ! 3) = ''Date'' \<and>
     ''Date'' \<notin> fst ` set (columns (projr (getBaseDelta sk g d t x y))) \<and>
     ''Incidents'' \<notin> fst ` set (columns (projr (getBaseDelta sk g d t x y))) \<and>
     (\<forall>w\<in>set ws.
        ''Date'' \<notin> fst ` set (columns (snd (projr (getWindows_body sk g d t x y w)))) \<and>
        ''Incidents'' \<notin> fst ` set (columns (snd (projr (getWindows_body sk g d t x y w)))) \<and>
        ''Date'' \<notin> fst ` set (columns (projr (getWindowsDelta_body sk g d t x y w))) \<and>
        ''Incidents'' \<notin> fst ` set (columns (projr (getWindowsDelta_body sk g d t x y w))))"
proof (intro conjI ballI)
  note n = table_names [OF assms]
  note s = getIF_Inr_shapes [OF assms]
  note v = getIF_Inr_views [OF assms]
  note b = getBase_Inr_columns [OF not_isl_projr [OF v(1)]]
  show "count_list (map fst (columns tbl)) ''Date'' = 1" unfolding n by (rule count_view_names)
  show "count_list (map fst (columns tbl)) ''Incidents'' = 1" unfolding n by (rule count_view_names)
  show 2: "columns tbl ! 2 = columns (projr (getBase sk g d t x y time)) ! 2"
    by (rule raw_columns_in_table [OF assms]) simp
  show 3: "columns tbl ! 3 = columns (projr (getBase sk g d t x y time)) ! 3"
    by (rule raw_columns_in_table [OF assms]) simp
  show "fst (columns tbl ! 2) = ''Incidents''" unfolding 2 b(2) by simp
  show "fst (columns tbl ! 3) = ''Date''" unfolding 3 b(3) by simp
  show "''Date'' \<notin> fst ` set (columns (projr (getBaseDelta sk g d t x y)))"
    unfolding view_shape_names [OF s(2)] by simp
  show "''Incidents'' \<notin> fst ` set (columns (projr (getBaseDelta sk g d t x y)))"
    unfolding view_shape_names [OF s(2)] by simp
  fix w assume w: "w \<in> set ws"
  show "''Date'' \<notin> fst ` set (columns (snd (projr (getWindows_body sk g d t x y w))))"
    unfolding view_shape_names [OF s(3) [OF w]] by simp
  show "''Incidents'' \<notin> fst ` set (columns (snd (projr (getWindows_body sk g d t x y w))))"
    unfolding view_shape_names [OF s(3) [OF w]] by simp
  show "''Date'' \<notin> fst ` set (columns (projr (getWindowsDelta_body sk g d t x y w)))"
    unfolding view_shape_names [OF s(4) [OF w]] by simp
  show "''Incidents'' \<notin> fst ` set (columns (projr (getWindowsDelta_body sk g d t x y w)))"
    unfolding view_shape_names [OF s(4) [OF w]] by simp
qed

theorem one_date_one_incidents_witness:
  "getIF mean_scorer () (Series sample_series) (DatetimeIndex sample_stamps) (PyList [2])
     None None None = Inr sample_table \<and>
   count_list (map fst (columns sample_table)) ''Date'' = 1 \<and>
   count_list (map fst (columns sample_table)) ''Incidents'' = 1 \<and>
   fst (columns sample_table ! 2) = ''Incidents'' \<and>
   fst (columns sample_table ! 3) = ''Date''"
  using one_date_one_incidents [OF sample_run] sample_run by blast

text \<open>
  C10. With \<^verbatim>\<open>time=False\<close>, \<^verbatim>\<open>getBase\<close> adds no \<^verbatim>\<open>Date\<close> column to its frame
  and then calls \<^verbatim>\<open>getPlot\<close>, which selects the columns \<^verbatim>\<open>Date\<close> and
  \<^verbatim>\<open>Incidents\<close> of that frame: the selection raises KeyError, and so does \<^verbatim>\<open>getIF\<close>.
  No table is returned on the worked example.
\<close>

theorem time_False_raises:
  "getBase mean_scorer () sample_series sample_stamps None None (Some False) = Inl (KeyError ''Date'') \<and>
   getIF mean_scorer () (Series sample_series) (DatetimeIndex sample_stamps) (PyList [2])
     None None (Some False) = Inl (KeyError ''Date'')"
  by code_simp

end
